theory Spec2Isabelle
  imports Complex_Main
begin

section \<open>Messages, errors and the conversation state (src/state.py)\<close>

text \<open>
  A message is the Python dict \<^verbatim>\<open>{"role": ..., "content": ...}\<close>: exactly these two
  keys, both strings. An exception is a value of \<open>error\<close>; a method that mutates the
  object and may raise returns the object as it is left behind together with the outcome,
  because an exception does not undo the mutations made before it.
\<close>

record message =
  role :: string
  content :: string

datatype error =
    IndexError
  | RuntimeError string
  | BackendError string

type_synonym 'a outcome = "error + 'a"

record ConversationState =
  max_turns :: int
  system_prompt :: string
  history :: "message list"

definition default_system_prompt :: string where
  "default_system_prompt =
     ''You are a helpful, concise voice assistant. '' @
     ''Keep replies short (1-3 sentences) and ask clarifying questions when needed.''"

text \<open>
  \<^verbatim>\<open>__init__(max_turns, system_prompt)\<close>: \<^verbatim>\<open>system_prompt or default\<close> takes the
  default for \<^verbatim>\<open>None\<close> and for the empty string.
\<close>

definition ConversationState_init :: "int \<Rightarrow> string option \<Rightarrow> ConversationState" where
  "ConversationState_init mt sp =
     \<lparr>max_turns = mt,
      system_prompt = (case sp of None \<Rightarrow> default_system_prompt
                       | Some p \<Rightarrow> if p = [] then default_system_prompt else p),
      history = []\<rparr>"

text \<open>
  The loop of \<^verbatim>\<open>_trim\<close>: \<^verbatim>\<open>while len(self.history) > self.max_turns * 2:
  self.history.popleft()\<close>. \<^verbatim>\<open>popleft\<close> on an empty deque raises IndexError, which
  happens exactly when \<open>max_turns\<close> is negative: the deque has been emptied by then.
\<close>

function trim_loop :: "int \<Rightarrow> 'm list \<Rightarrow> 'm list \<times> error option" where
  "trim_loop mt h =
     (if int (length h) > mt * 2
      then (case h of [] \<Rightarrow> ([], Some IndexError) | m # rest \<Rightarrow> trim_loop mt rest)
      else (h, None))"
  by pat_completeness auto
termination
  by (relation "measure (\<lambda>(mt, h). length h)") auto

declare trim_loop.simps [simp del]

definition trim :: "ConversationState \<Rightarrow> ConversationState \<times> unit outcome" where
  "trim s =
     (case trim_loop (max_turns s) (history s) of
        (h, None) \<Rightarrow> (s\<lparr>history := h\<rparr>, Inr ())
      | (h, Some e) \<Rightarrow> (s\<lparr>history := h\<rparr>, Inl e))"

definition reset :: "ConversationState \<Rightarrow> ConversationState \<times> unit outcome" where
  "reset s = (s\<lparr>history := []\<rparr>, Inr ())"

definition add_user :: "ConversationState \<Rightarrow> string \<Rightarrow> ConversationState \<times> unit outcome" where
  "add_user s text = trim (s\<lparr>history := history s @ [\<lparr>role = ''user'', content = text\<rparr>]\<rparr>)"

definition add_assistant :: "ConversationState \<Rightarrow> string \<Rightarrow> ConversationState \<times> unit outcome" where
  "add_assistant s text =
     trim (s\<lparr>history := history s @ [\<lparr>role = ''assistant'', content = text\<rparr>]\<rparr>)"

definition get_messages :: "ConversationState \<Rightarrow> message list" where
  "get_messages s = \<lparr>role = ''system'', content = system_prompt s\<rparr> # history s"

subsection \<open>Sequences of calls\<close>

text \<open>
  A caller's sequence of \<^verbatim>\<open>add_user\<close>/\<^verbatim>\<open>add_assistant\<close> calls, and the object and
  outcome after each of them (a caller may catch an exception and carry on, so the
  sequence goes on after a call that raised).
\<close>

datatype call = AddUser string | AddAssistant string

fun do_call :: "ConversationState \<Rightarrow> call \<Rightarrow> ConversationState \<times> unit outcome" where
  "do_call s (AddUser t) = add_user s t"
| "do_call s (AddAssistant t) = add_assistant s t"

fun appended :: "call \<Rightarrow> message" where
  "appended (AddUser t) = \<lparr>role = ''user'', content = t\<rparr>"
| "appended (AddAssistant t) = \<lparr>role = ''assistant'', content = t\<rparr>"

fun trace :: "ConversationState \<Rightarrow> call list \<Rightarrow> (ConversationState \<times> unit outcome) list" where
  "trace s [] = []"
| "trace s (c # cs) = do_call s c # trace (fst (do_call s c)) cs"

fun after_calls :: "ConversationState \<Rightarrow> call list \<Rightarrow> ConversationState" where
  "after_calls s [] = s"
| "after_calls s (c # cs) = after_calls (fst (do_call s c)) cs"

text \<open>The newest \<open>n\<close> elements of a sequence, in their order.\<close>

definition newest :: "nat \<Rightarrow> 'a list \<Rightarrow> 'a list" where
  "newest n xs = drop (length xs - n) xs"

section \<open>Strings as Python sees them\<close>

text \<open>
  A \<open>char\<close> stands for the code point of the same number (0 to 255). \<^verbatim>\<open>str.lower\<close>
  maps A-Z and the capital letters of Latin-1 (192 to 222 without the multiplication
  sign 215) to the code point 32 above and leaves the other code points alone.
  \<^verbatim>\<open>str.strip\<close> removes the code points for which \<^verbatim>\<open>str.isspace\<close> holds from both
  ends.
\<close>

definition lower_char :: "char \<Rightarrow> char" where
  "lower_char c =
     (let n = (of_char c :: nat)
      in if (65 \<le> n \<and> n \<le> 90) \<or> (192 \<le> n \<and> n \<le> 222 \<and> n \<noteq> 215)
         then char_of (n + 32) else c)"

definition lower :: "string \<Rightarrow> string" where
  "lower s = map lower_char s"

definition isspace :: "char \<Rightarrow> bool" where
  "isspace c =
     (let n = (of_char c :: nat)
      in (9 \<le> n \<and> n \<le> 13) \<or> (28 \<le> n \<and> n \<le> 32) \<or> n = 133 \<or> n = 160)"

definition strip :: "string \<Rightarrow> string" where
  "strip s = rev (dropWhile isspace (rev (dropWhile isspace s)))"

text \<open>
  \<^verbatim>\<open>s.split(sep, 1)[-1]\<close> for a non-empty \<open>sep\<close>: what follows the leftmost occurrence
  of \<open>sep\<close>, and all of \<open>s\<close> when \<open>sep\<close> does not occur.
\<close>

fun after_first :: "string \<Rightarrow> string \<Rightarrow> string option" where
  "after_first sep s =
     (if take (length sep) s = sep then Some (drop (length sep) s)
      else (case s of [] \<Rightarrow> None | c # cs \<Rightarrow> after_first sep cs))"

definition split_once_last :: "string \<Rightarrow> string \<Rightarrow> string" where
  "split_once_last sep s = (case after_first sep s of None \<Rightarrow> s | Some t \<Rightarrow> t)"

text \<open>\<^verbatim>\<open>os.environ\<close> and \<^verbatim>\<open>os.environ.get(key, default)\<close>.\<close>

type_synonym environ = "string \<Rightarrow> string option"

definition environ_get :: "environ \<Rightarrow> string \<Rightarrow> string \<Rightarrow> string" where
  "environ_get env k d = (case env k of None \<Rightarrow> d | Some v \<Rightarrow> v)"

section \<open>The external engines\<close>

text \<open>
  What the libraries and services behind the three stages do is not part of the
  repository: each is a parameter. \<open>'a\<close> is the type of recorded audio data.

  \<^item> \<open>record_audio\<close>: \<^verbatim>\<open>sr.AudioFile(wav_path)\<close> and \<^verbatim>\<open>recognizer.record\<close>, from the
    bytes stored under the path (\<open>None\<close>: no such file).
  \<^item> \<open>recognize_google\<close>: the \<open>n\<close>-th request sent to the Google Web Speech service
    since the process started, with the audio and the API key.
  \<^item> \<open>whisper_transcribe\<close>: \<^verbatim>\<open>whisper.load_model(model_name).transcribe(wav_path)\<close>.
  \<^item> \<open>hf_generate\<close>: the text-generation pipeline of a model applied to a prompt, giving
    \<^verbatim>\<open>[0]["generated_text"]\<close> (its sampling is part of the parameter).
  \<^item> \<open>ollama_post\<close>: the POST of \<^verbatim>\<open>{"model", "messages", "stream": False}\<close> to a URL,
    \<^verbatim>\<open>raise_for_status\<close> and \<^verbatim>\<open>r.json()\<close>; a result is the \<^verbatim>\<open>"message"\<close> entry of
    the JSON object, if any, reduced to its \<^verbatim>\<open>"content"\<close> entry, if any.
  \<^item> \<open>synthesize_to_wav\<close>: the pyttsx3 engine configured from the environment, giving
    the bytes it saves to the output path.
\<close>

datatype google_outcome =
    Recognized string
  | UnknownValueError
  | RequestError string
  | OtherFailure error

text \<open>
  The dict that whisper returns, as far as the program reads it: the entry \<^verbatim>\<open>"text"\<close>
  (absent or \<^verbatim>\<open>None\<close>: \<open>None\<close>) and the entry \<^verbatim>\<open>"segments"\<close> (absent: \<open>None\<close>), a
  list of segments, each reduced to its \<^verbatim>\<open>"no_speech_prob"\<close> entry, if it has one.
\<close>

record whisper_result =
  w_text :: "string option"
  w_segments :: "real option list option"

record 'a backends =
  record_audio :: "string option \<Rightarrow> 'a outcome"
  recognize_google :: "nat \<Rightarrow> 'a \<Rightarrow> string option \<Rightarrow> google_outcome"
  whisper_transcribe :: "string \<Rightarrow> string option \<Rightarrow> whisper_result outcome"
  hf_generate :: "string \<Rightarrow> string \<Rightarrow> string outcome"
  ollama_post :: "string \<Rightarrow> string \<Rightarrow> message list \<Rightarrow> string option option outcome"
  synthesize_to_wav :: "environ \<Rightarrow> string \<Rightarrow> string outcome"

section \<open>Speech to text (src/asr.py)\<close>

text \<open>
  \<open>fs\<close> is the file system (path to bytes) and \<open>n\<close> the number of requests sent to
  the Google service so far; the functions return the new number with their outcome.
\<close>

definition transcribe_google ::
  "'a backends \<Rightarrow> (string \<Rightarrow> string option) \<Rightarrow> nat \<Rightarrow> string \<Rightarrow> string option
     \<Rightarrow> nat \<times> (string \<times> real) outcome" where
  "transcribe_google B fs n wav_path api_key =
     (case record_audio B (fs wav_path) of
        Inl e \<Rightarrow> (n, Inl e)
      | Inr audio \<Rightarrow>
          (case recognize_google B n audio api_key of
             Recognized text \<Rightarrow> (Suc n, Inr (text, 0.8))
           | UnknownValueError \<Rightarrow> (Suc n, Inr ([], 0.0))
           | RequestError e \<Rightarrow> (Suc n, Inl (RuntimeError (''Google ASR request error: '' @ e)))
           | OtherFailure e \<Rightarrow> (Suc n, Inl e)))"

text \<open>
  \<^verbatim>\<open>result.get("segments", [{}])[0].get("no_speech_prob", 0.2)\<close>: the default list
  stands in for a missing key only; an empty list of segments raises IndexError.
  Python's floats are modelled as reals.
\<close>

definition transcribe_whisper ::
  "'a backends \<Rightarrow> (string \<Rightarrow> string option) \<Rightarrow> string \<Rightarrow> string \<Rightarrow> (string \<times> real) outcome" where
  "transcribe_whisper B fs wav_path model_name =
     (case whisper_transcribe B model_name (fs wav_path) of
        Inl e \<Rightarrow> Inl e
      | Inr result \<Rightarrow>
          (let text = strip (case w_text result of None \<Rightarrow> [] | Some t \<Rightarrow> t)
           in case (case w_segments result of None \<Rightarrow> [None] | Some segs \<Rightarrow> segs) of
                [] \<Rightarrow> Inl IndexError
              | seg # _ \<Rightarrow> Inr (text, 1.0 - (case seg of None \<Rightarrow> 0.2 | Some p \<Rightarrow> p))))"

definition transcribe ::
  "'a backends \<Rightarrow> (string \<Rightarrow> string option) \<Rightarrow> nat \<Rightarrow> string \<Rightarrow> string option \<Rightarrow> string option
     \<Rightarrow> nat \<times> (string \<times> real) outcome" where
  "transcribe B fs n wav_path engine api_key =
     (let engine = lower (case engine of None \<Rightarrow> ''whisper''
                          | Some e \<Rightarrow> if e = [] then ''whisper'' else e)
      in if engine = ''google'' then transcribe_google B fs n wav_path api_key
         else (n, transcribe_whisper B fs wav_path ''base''))"

section \<open>Reply generation (src/llm.py)\<close>

definition chat_ollama :: "environ \<Rightarrow> 'a backends \<Rightarrow> message list \<Rightarrow> string \<Rightarrow> string outcome" where
  "chat_ollama env B messages model =
     (let url = environ_get env ''OLLAMA_URL'' ''http://localhost:11434/api/chat''
      in case ollama_post B url model messages of
           Inl e \<Rightarrow> Inl e
         | Inr None \<Rightarrow> Inr []
         | Inr (Some None) \<Rightarrow> Inr []
         | Inr (Some (Some c)) \<Rightarrow> Inr c)"

text \<open>The loop of \<^verbatim>\<open>chat_hf\<close> that builds the prompt, with the prompt so far.\<close>

fun hf_prompt_loop :: "message list \<Rightarrow> string \<Rightarrow> string" where
  "hf_prompt_loop [] prompt = prompt"
| "hf_prompt_loop (m # ms) prompt =
     (if role m = ''system'' then hf_prompt_loop ms prompt
      else hf_prompt_loop ms
             (prompt @ (if role m = ''user'' then ''User'' else ''Assistant'') @ '': '' @
              content m @ [CHR 0x0A]))"

definition hf_prompt :: "message list \<Rightarrow> string" where
  "hf_prompt messages = hf_prompt_loop messages [] @ ''Assistant: ''"

definition chat_hf :: "'a backends \<Rightarrow> message list \<Rightarrow> string \<Rightarrow> string outcome" where
  "chat_hf B messages model =
     (case hf_generate B model (hf_prompt messages) of
        Inl e \<Rightarrow> Inl e
      | Inr out \<Rightarrow> Inr (strip (split_once_last ''Assistant:'' out)))"

definition chat :: "environ \<Rightarrow> 'a backends \<Rightarrow> message list \<Rightarrow> string outcome" where
  "chat env B messages =
     (let backend = lower (environ_get env ''LLM_BACKEND'' ''hf'')
      in if backend = ''hf''
         then chat_hf B messages (environ_get env ''HF_MODEL'' ''TinyLlama/TinyLlama-1.1B-Chat-v1.0'')
         else chat_ollama env B messages (environ_get env ''LLM_MODEL'' ''llama3''))"

section \<open>The endpoints (main.py)\<close>

text \<open>
  The process holds one module-level \<^verbatim>\<open>state\<close>. Next to it the server record keeps what
  the endpoints touch outside the process: the files and the count of requests sent to
  the Google service. \<open>tmp\<close> is the fresh path that \<^verbatim>\<open>mkdtemp\<close> and \<^verbatim>\<open>uuid4\<close> give a
  request. An endpoint returns the server as it leaves it, with its response or the
  exception that escapes it.
\<close>

record server =
  state :: ConversationState
  files :: "string \<Rightarrow> string option"
  google_requests :: nat

datatype request =
    Home
  | Reset
  | Transcribe "string option" string
  | Reply string
  | Speak string

datatype response =
    Html string
  | Ok
  | Transcript string real
  | ReplyText string
  | WavFile string

definition home :: "server \<Rightarrow> server \<times> response outcome" where
  "home sv =
     (case files sv ''client/index.html'' of
        None \<Rightarrow> (sv, Inl (BackendError ''FileNotFoundError''))
      | Some html \<Rightarrow> (sv, Inr (Html html)))"

definition reset_endpoint :: "server \<Rightarrow> server \<times> response outcome" where
  "reset_endpoint sv =
     (case reset (state sv) of
        (s, Inl e) \<Rightarrow> (sv\<lparr>state := s\<rparr>, Inl e)
      | (s, Inr _) \<Rightarrow> (sv\<lparr>state := s\<rparr>, Inr Ok))"

definition asr_endpoint ::
  "environ \<Rightarrow> 'a backends \<Rightarrow> string \<Rightarrow> server \<Rightarrow> string \<Rightarrow> string \<Rightarrow> server \<times> response outcome" where
  "asr_endpoint env B tmp sv engine file =
     (let wav_path = tmp;
          files1 = (files sv)(wav_path \<mapsto> file)
      in case transcribe B files1 (google_requests sv) wav_path (Some engine)
                (env ''GOOGLE_SPEECH_API_KEY'') of
           (n, Inl e) \<Rightarrow> (sv\<lparr>files := files1, google_requests := n\<rparr>, Inl e)
         | (n, Inr (text, conf)) \<Rightarrow>
             (sv\<lparr>files := files1(wav_path := None), google_requests := n\<rparr>,
              Inr (Transcript text conf)))"

definition reply_endpoint ::
  "environ \<Rightarrow> 'a backends \<Rightarrow> server \<Rightarrow> string \<Rightarrow> server \<times> response outcome" where
  "reply_endpoint env B sv text =
     (case add_user (state sv) text of
        (s1, Inl e) \<Rightarrow> (sv\<lparr>state := s1\<rparr>, Inl e)
      | (s1, Inr _) \<Rightarrow>
          (case chat env B (get_messages s1) of
             Inl e \<Rightarrow> (sv\<lparr>state := s1\<rparr>, Inl e)
           | Inr reply \<Rightarrow>
               (case add_assistant s1 reply of
                  (s2, Inl e) \<Rightarrow> (sv\<lparr>state := s2\<rparr>, Inl e)
                | (s2, Inr _) \<Rightarrow> (sv\<lparr>state := s2\<rparr>, Inr (ReplyText reply)))))"

definition speak_endpoint ::
  "environ \<Rightarrow> 'a backends \<Rightarrow> string \<Rightarrow> server \<Rightarrow> string \<Rightarrow> server \<times> response outcome" where
  "speak_endpoint env B tmp sv text =
     (let out_wav = tmp
      in case synthesize_to_wav B env text of
           Inl e \<Rightarrow> (sv, Inl e)
         | Inr wav \<Rightarrow> (sv\<lparr>files := (files sv)(out_wav \<mapsto> wav)\<rparr>, Inr (WavFile out_wav)))"

text \<open>
  The routing of the application: one request to its endpoint. The form field
  \<^verbatim>\<open>engine\<close> of \<^verbatim>\<open>/transcribe\<close> defaults to \<^verbatim>\<open>"whisper"\<close> when it is absent.
\<close>

fun handle ::
  "environ \<Rightarrow> 'a backends \<Rightarrow> string \<Rightarrow> server \<Rightarrow> request \<Rightarrow> server \<times> response outcome" where
  "handle env B tmp sv Home = home sv"
| "handle env B tmp sv Reset = reset_endpoint sv"
| "handle env B tmp sv (Transcribe engine file) =
     asr_endpoint env B tmp sv (case engine of None \<Rightarrow> ''whisper'' | Some e \<Rightarrow> e) file"
| "handle env B tmp sv (Reply text) = reply_endpoint env B sv text"
| "handle env B tmp sv (Speak text) = speak_endpoint env B tmp sv text"

section \<open>The state object with references\<close>

text \<open>
  In the program a message is a dict object and the history a deque of references to
  such objects; \<^verbatim>\<open>get_messages\<close> builds a new list object that holds references. What
  a caller can reach through the returned list depends on which objects are shared, so
  this section models the objects in a store: an address is an index into the heap,
  allocation appends, and the object of \<^verbatim>\<open>ConversationState\<close> holds the address of its
  deque. A read of an address that holds no object of the expected kind gives \<open>None\<close>;
  the methods give \<open>None\<close> on such a heap, which no run of the program produces.
\<close>

type_synonym addr = nat

datatype obj = Dict message | Seq "addr list"

type_synonym heap = "obj list"

definition alloc :: "heap \<Rightarrow> obj \<Rightarrow> heap \<times> addr" where
  "alloc hp v = (hp @ [v], length hp)"

definition seq_at :: "heap \<Rightarrow> addr \<Rightarrow> addr list option" where
  "seq_at hp a =
     (if a < length hp then (case hp ! a of Seq xs \<Rightarrow> Some xs | Dict m \<Rightarrow> None) else None)"

definition dict_at :: "heap \<Rightarrow> addr \<Rightarrow> message option" where
  "dict_at hp a =
     (if a < length hp then (case hp ! a of Dict m \<Rightarrow> Some m | Seq xs \<Rightarrow> None) else None)"

record ConversationStateRef =
  ref_max_turns :: int
  ref_system_prompt :: string
  ref_history :: addr

definition ref_init :: "heap \<Rightarrow> int \<Rightarrow> string option \<Rightarrow> heap \<times> ConversationStateRef" where
  "ref_init hp mt sp =
     (case alloc hp (Seq []) of
        (hp1, d) \<Rightarrow>
          (hp1, \<lparr>ref_max_turns = mt,
                 ref_system_prompt = (case sp of None \<Rightarrow> default_system_prompt
                                      | Some p \<Rightarrow> if p = [] then default_system_prompt else p),
                 ref_history = d\<rparr>))"

text \<open>\<^verbatim>\<open>self.history.append(m)\<close> for a new dict \<open>m\<close>, then \<^verbatim>\<open>self._trim()\<close>.\<close>

definition ref_append ::
  "heap \<Rightarrow> ConversationStateRef \<Rightarrow> message \<Rightarrow> (heap \<times> unit outcome) option" where
  "ref_append hp r m =
     (case seq_at hp (ref_history r) of
        None \<Rightarrow> None
      | Some xs \<Rightarrow>
          (case alloc hp (Dict m) of
             (hp1, a) \<Rightarrow>
               (case trim_loop (ref_max_turns r) (xs @ [a]) of
                  (ys, None) \<Rightarrow> Some (hp1[ref_history r := Seq ys], Inr ())
                | (ys, Some e) \<Rightarrow> Some (hp1[ref_history r := Seq ys], Inl e))))"

definition ref_add_user ::
  "heap \<Rightarrow> ConversationStateRef \<Rightarrow> string \<Rightarrow> (heap \<times> unit outcome) option" where
  "ref_add_user hp r text = ref_append hp r \<lparr>role = ''user'', content = text\<rparr>"

definition ref_add_assistant ::
  "heap \<Rightarrow> ConversationStateRef \<Rightarrow> string \<Rightarrow> (heap \<times> unit outcome) option" where
  "ref_add_assistant hp r text = ref_append hp r \<lparr>role = ''assistant'', content = text\<rparr>"

text \<open>
  \<^verbatim>\<open>msgs = [{"role": "system", ...}]\<close> allocates the dict and the list,
  \<^verbatim>\<open>list(self.history)\<close> a second list with the deque's references, and
  \<^verbatim>\<open>msgs.extend\<close> writes these references into the first list, whose address is returned.
\<close>

definition ref_get_messages :: "heap \<Rightarrow> ConversationStateRef \<Rightarrow> (heap \<times> addr) option" where
  "ref_get_messages hp r =
     (case seq_at hp (ref_history r) of
        None \<Rightarrow> None
      | Some xs \<Rightarrow>
          (case alloc hp (Dict \<lparr>role = ''system'', content = ref_system_prompt r\<rparr>) of
             (hp1, a_sys) \<Rightarrow>
               (case alloc hp1 (Seq [a_sys]) of
                  (hp2, msgs) \<Rightarrow>
                    (case alloc hp2 (Seq xs) of
                       (hp3, copy) \<Rightarrow>
                         (case seq_at hp3 copy of
                            None \<Rightarrow> None
                          | Some zs \<Rightarrow> Some (hp3[msgs := Seq ([a_sys] @ zs)], msgs))))))"

text \<open>
  What a caller can do with a list it was handed: change the list object in place (any
  of \<^verbatim>\<open>append\<close>, \<^verbatim>\<open>pop\<close>, \<^verbatim>\<open>clear\<close>, item assignment: the list holds some other
  references afterwards), or change an element in place, \<^verbatim>\<open>msgs[i]["content"] = v\<close>
  (\<open>None\<close>: the index is out of range, or the heap is not as expected).
\<close>

definition set_list :: "heap \<Rightarrow> addr \<Rightarrow> addr list \<Rightarrow> heap" where
  "set_list hp a ys = hp[a := Seq ys]"

definition set_content :: "heap \<Rightarrow> addr \<Rightarrow> nat \<Rightarrow> string \<Rightarrow> heap option" where
  "set_content hp a i v =
     (case seq_at hp a of
        None \<Rightarrow> None
      | Some ys \<Rightarrow>
          if i < length ys
          then (case dict_at hp (ys ! i) of
                  None \<Rightarrow> None
                | Some m \<Rightarrow> Some (hp[ys ! i := Dict (m\<lparr>content := v\<rparr>)]))
          else None)"

text \<open>The messages a list object holds, as values; the history of a state object.\<close>

definition seq_view :: "heap \<Rightarrow> addr \<Rightarrow> message option list option" where
  "seq_view hp a = map_option (map (dict_at hp)) (seq_at hp a)"

definition ref_view :: "heap \<Rightarrow> ConversationStateRef \<Rightarrow> message option list option" where
  "ref_view hp r = seq_view hp (ref_history r)"

text \<open>The state object as a value, when the heap holds its deque and its messages.\<close>

definition abstract_state :: "ConversationStateRef \<Rightarrow> message list \<Rightarrow> ConversationState" where
  "abstract_state r h =
     \<lparr>max_turns = ref_max_turns r, system_prompt = ref_system_prompt r, history = h\<rparr>"

text \<open>
  The heap holds the deque of the state object and a dict for each of its references.
  The constructor makes it so and the methods keep it so.
\<close>

definition ref_wf :: "heap \<Rightarrow> ConversationStateRef \<Rightarrow> bool" where
  "ref_wf hp r =
     (case seq_at hp (ref_history r) of
        None \<Rightarrow> False
      | Some xs \<Rightarrow> list_all (\<lambda>a. dict_at hp a \<noteq> None) xs)"

text \<open>
  A concrete run: a state object made on the empty heap with \<open>max_turns = 8\<close>, after
  \<^verbatim>\<open>add_user("hi")\<close>, and the heap after \<^verbatim>\<open>get_messages()\<close> on it, which returns the
  address 3.
\<close>

definition example_ref :: ConversationStateRef where
  "example_ref =
     \<lparr>ref_max_turns = 8, ref_system_prompt = default_system_prompt, ref_history = 0\<rparr>"

definition example_heap :: heap where
  "example_heap = [Seq [1], Dict \<lparr>role = ''user'', content = ''hi''\<rparr>]"

definition example_heap_snapshot :: heap where
  "example_heap_snapshot =
     [Seq [1], Dict \<lparr>role = ''user'', content = ''hi''\<rparr>,
      Dict \<lparr>role = ''system'', content = default_system_prompt\<rparr>, Seq [2, 1], Seq [1]]"

section \<open>Notions of the specification\<close>

text \<open>
  An engine identifier that is \<^verbatim>\<open>"google"\<close> compared case-insensitively: letter by
  letter, each character is the lower-case letter or its capital (32 below it).
\<close>

definition same_letter :: "char \<Rightarrow> char \<Rightarrow> bool" where
  "same_letter c l = (c = l \<or> (of_char c :: nat) + 32 = of_char l)"

definition names_google :: "string \<Rightarrow> bool" where
  "names_google e = list_all2 same_letter e ''google''"

section \<open>Example engines\<close>

text \<open>
  One choice of the external engines, for concrete runs: any file can be read as audio;
  the Google service finds no speech in the first request and cannot be reached
  afterwards; whisper transcribes blank text with one segment of no-speech probability
  one half; the pipeline continues its prompt with a fixed sentence; no Ollama server
  answers; the synthesizer writes a fixed file.
\<close>

definition example_backends :: "unit backends" where
  "example_backends =
     \<lparr>record_audio = (\<lambda>f. case f of None \<Rightarrow> Inl (BackendError ''FileNotFoundError'')
                            | Some b \<Rightarrow> Inr ()),
      recognize_google = (\<lambda>n a k. if n = 0 then UnknownValueError
                                   else RequestError ''recognition connection failed''),
      whisper_transcribe = (\<lambda>m f. Inr \<lparr>w_text = Some '' '', w_segments = Some [Some (1 / 2)]\<rparr>),
      hf_generate = (\<lambda>m prompt. Inr (prompt @ ''Hello there. '')),
      ollama_post = (\<lambda>url m msgs. Inl (BackendError ''ConnectError'')),
      synthesize_to_wav = (\<lambda>env text. Inr ''RIFF'')\<rparr>"

definition example_server :: "int \<Rightarrow> server" where
  "example_server mt =
     \<lparr>state = ConversationState_init mt None, files = (\<lambda>p. None), google_requests = 0\<rparr>"

section \<open>Properties of the conversation state\<close>

subsection \<open>Trimming\<close>

lemma newest_Cons_full: "n \<le> length xs \<Longrightarrow> newest n (x # xs) = newest n xs"
  by (simp add: newest_def Suc_diff_le)

lemma trim_loop_nonneg:
  "0 \<le> mt \<Longrightarrow> trim_loop mt h = (newest (nat (2 * mt)) h, None)"
proof (induction mt h rule: trim_loop.induct)
  case (1 mt h)
  show ?case
  proof (cases "int (length h) > mt * 2")
    case False
    then show ?thesis by (simp add: trim_loop.simps[of mt h] newest_def)
  next
    case True
    with "1.prems" obtain m rest where h: "h = m # rest" by (cases h) auto
    from True h "1.prems" have "nat (2 * mt) \<le> length rest" by simp
    then have "newest (nat (2 * mt)) (m # rest) = newest (nat (2 * mt)) rest"
      by (rule newest_Cons_full)
    moreover have "trim_loop mt rest = (newest (nat (2 * mt)) rest, None)"
      using "1.IH"[OF True h] "1.prems" .
    ultimately show ?thesis using True h by (simp add: trim_loop.simps[of mt "m # rest"])
  qed
qed

lemma trim_loop_suffix: "\<exists>k. fst (trim_loop mt h) = drop k h"
proof (induction mt h rule: trim_loop.induct)
  case (1 mt h)
  show ?case
  proof (cases "int (length h) > mt * 2")
    case False
    then have "fst (trim_loop mt h) = drop 0 h" by (simp add: trim_loop.simps[of mt h])
    then show ?thesis by blast
  next
    case True
    show ?thesis
    proof (cases h)
      case Nil
      with True have "fst (trim_loop mt h) = drop 0 h" by (simp add: trim_loop.simps[of mt "[]"])
      then show ?thesis by blast
    next
      case (Cons m rest)
      from "1.IH"[OF True Cons] obtain k where "fst (trim_loop mt rest) = drop k rest" by blast
      with True Cons have "fst (trim_loop mt h) = drop (Suc k) h"
        by (simp add: trim_loop.simps[of mt "m # rest"])
      then show ?thesis by blast
    qed
  qed
qed

lemma trim_nonneg:
  "0 \<le> max_turns s \<Longrightarrow>
   trim s = (s\<lparr>history := newest (nat (2 * max_turns s)) (history s)\<rparr>, Inr ())"
  by (simp add: trim_def trim_loop_nonneg)

lemma trim_config: "max_turns (fst (trim s)) = max_turns s \<and> system_prompt (fst (trim s)) = system_prompt s"
  by (simp add: trim_def split: prod.splits option.splits)

lemma trim_history_suffix: "\<exists>k. history (fst (trim s)) = drop k (history s)"
proof -
  obtain k where "fst (trim_loop (max_turns s) (history s)) = drop k (history s)"
    using trim_loop_suffix by blast
  then have "history (fst (trim s)) = drop k (history s)"
    by (auto simp: trim_def split: prod.splits option.splits)
  then show ?thesis by blast
qed

lemma do_call_nonneg:
  "0 \<le> max_turns s \<Longrightarrow>
   do_call s c =
     (s\<lparr>history := newest (nat (2 * max_turns s)) (history s @ [appended c])\<rparr>, Inr ())"
  by (cases c) (simp_all add: add_user_def add_assistant_def trim_nonneg)

lemma do_call_config:
  "max_turns (fst (do_call s c)) = max_turns s \<and>
   system_prompt (fst (do_call s c)) = system_prompt s"
  by (cases c) (simp_all add: add_user_def add_assistant_def trim_config)

lemma do_call_history_suffix:
  "\<exists>k. history (fst (do_call s c)) = drop k (history s @ [appended c])"
proof (cases c)
  case (AddUser t)
  then show ?thesis
    using trim_history_suffix[of "s\<lparr>history := history s @ [\<lparr>role = ''user'', content = t\<rparr>]\<rparr>"]
    by (simp add: add_user_def)
next
  case (AddAssistant t)
  then show ?thesis
    using trim_history_suffix[of "s\<lparr>history := history s @ [\<lparr>role = ''assistant'', content = t\<rparr>]\<rparr>"]
    by (simp add: add_assistant_def)
qed

lemma length_newest: "length (newest n xs) = min n (length xs)"
  by (simp add: newest_def)

lemma newest_newest_append: "newest n (newest n xs @ ys) = newest n (xs @ ys)"
  by (cases "n \<le> length xs") (simp_all add: newest_def add.commute)

lemma newest_all: "length xs \<le> n \<Longrightarrow> newest n xs = xs"
  by (simp add: newest_def)

lemma trace_bounded:
  "0 \<le> max_turns s \<Longrightarrow>
   list_all (\<lambda>(s', r). r = Inr () \<and> int (length (history s')) \<le> 2 * max_turns s)
     (trace s calls)"
proof (induction calls arbitrary: s)
  case Nil
  show ?case by simp
next
  case (Cons c cs)
  let ?s1 = "s\<lparr>history := newest (nat (2 * max_turns s)) (history s @ [appended c])\<rparr>"
  have step: "do_call s c = (?s1, Inr ())" using Cons.prems by (rule do_call_nonneg)
  have "0 \<le> max_turns ?s1" using Cons.prems by simp
  from Cons.IH[OF this]
  have rest: "list_all (\<lambda>(s', r). r = Inr () \<and> int (length (history s')) \<le> 2 * max_turns s)
                (trace ?s1 cs)"
    by simp
  have "int (length (history ?s1)) \<le> 2 * max_turns s"
    using Cons.prems by (simp add: length_newest)
  with step rest show ?case by simp
qed

text \<open>
  C1. With \<open>max_turns \<ge> 0\<close>, after every call of a sequence of \<^verbatim>\<open>add_user\<close> and
  \<^verbatim>\<open>add_assistant\<close> calls the call has returned normally and the history holds at most
  \<open>2 * max_turns\<close> messages, whatever the history was before the sequence; with
  \<open>max_turns = 0\<close> the history is empty after every call.
\<close>

theorem history_bounded:
  "0 \<le> max_turns s \<Longrightarrow>
   list_all (\<lambda>(s', r). r = Inr () \<and> int (length (history s')) \<le> 2 * max_turns s)
     (trace s calls) \<and>
   list_all (\<lambda>(s', r). r = Inr () \<and> length (history s') = 0)
     (trace (s\<lparr>max_turns := 0\<rparr>) calls)"
proof
  assume "0 \<le> max_turns s"
  then show "list_all (\<lambda>(s', r). r = Inr () \<and> int (length (history s')) \<le> 2 * max_turns s)
     (trace s calls)" by (rule trace_bounded)
next
  have "list_all (\<lambda>(s', r). r = Inr () \<and>
          int (length (history s')) \<le> 2 * max_turns (s\<lparr>max_turns := 0\<rparr>))
     (trace (s\<lparr>max_turns := 0\<rparr>) calls)"
    by (rule trace_bounded) simp
  then show "list_all (\<lambda>(s', r). r = Inr () \<and> length (history s') = 0)
     (trace (s\<lparr>max_turns := 0\<rparr>) calls)"
    by (simp add: case_prod_unfold)
qed

theorem history_bounded_witness:
  "(0::int) \<le> max_turns (ConversationState_init 1 None) \<and>
   map (\<lambda>(s', r). (length (history s'), r))
     (trace (ConversationState_init 1 None) [AddUser ''a'', AddAssistant ''b'', AddUser ''c'']) =
     [(1, Inr ()), (2, Inr ()), (2, Inr ())] \<and>
   list_all (\<lambda>(s', r). r = Inr () \<and> int (length (history s')) \<le> 2 * 1)
     (trace (ConversationState_init 1 None) [AddUser ''a'', AddAssistant ''b'', AddUser ''c'']) \<and>
   list_all (\<lambda>(s', r). r = Inr () \<and> length (history s') = 0)
     (trace ((ConversationState_init 1 None)\<lparr>max_turns := 0\<rparr>)
        [AddUser ''a'', AddAssistant ''b'', AddUser ''c''])"
proof -
  have h: "(0::int) \<le> max_turns (ConversationState_init 1 None)"
    by (simp add: ConversationState_init_def)
  have mt: "max_turns (ConversationState_init 1 None) = 1"
    by (simp add: ConversationState_init_def)
  have lens: "map (\<lambda>(s', r). (length (history s'), r))
     (trace (ConversationState_init 1 None) [AddUser ''a'', AddAssistant ''b'', AddUser ''c'']) =
     [(1, Inr ()), (2, Inr ()), (2, Inr ())]"
    by (simp add: ConversationState_init_def add_user_def add_assistant_def trim_def
          trim_loop.simps)
  from history_bounded[OF h, of "[AddUser ''a'', AddAssistant ''b'', AddUser ''c'']"] h lens
  show ?thesis unfolding mt by simp
qed

subsection \<open>What is retained\<close>

lemma after_calls_config:
  "max_turns (after_calls s calls) = max_turns s \<and>
   system_prompt (after_calls s calls) = system_prompt s"
  by (induction calls arbitrary: s) (simp_all add: do_call_config)

lemma after_calls_newest:
  "0 \<le> max_turns s \<Longrightarrow> length (history s) \<le> nat (2 * max_turns s) \<Longrightarrow>
   history (after_calls s calls) =
     newest (nat (2 * max_turns s)) (history s @ map appended calls)"
proof (induction calls arbitrary: s)
  case Nil
  then show ?case by (simp add: newest_all)
next
  case (Cons c cs)
  let ?n = "nat (2 * max_turns s)"
  let ?s1 = "s\<lparr>history := newest ?n (history s @ [appended c])\<rparr>"
  have step: "do_call s c = (?s1, Inr ())" using Cons.prems(1) by (rule do_call_nonneg)
  have "history (after_calls ?s1 cs) =
          newest (nat (2 * max_turns ?s1)) (history ?s1 @ map appended cs)"
    using Cons.prems(1) by (intro Cons.IH) (simp_all add: length_newest)
  then have "history (after_calls ?s1 cs) = newest ?n (newest ?n (history s @ [appended c]) @ map appended cs)"
    by simp
  also have "\<dots> = newest ?n ((history s @ [appended c]) @ map appended cs)"
    by (rule newest_newest_append)
  finally show ?case using step by simp
qed

lemma add_user_last:
  assumes "1 \<le> max_turns s"
  shows "last (get_messages (fst (add_user s x))) = \<lparr>role = ''user'', content = x\<rparr>"
proof -
  let ?u = "\<lparr>role = ''user'', content = x\<rparr>"
  let ?n = "nat (2 * max_turns s)"
  from assms have n: "0 < ?n" by simp
  have "fst (add_user s x) = s\<lparr>history := newest ?n (history s @ [?u])\<rparr>"
    using assms by (simp add: add_user_def trim_nonneg)
  moreover have "newest ?n (history s @ [?u]) \<noteq> []"
    using n by (simp add: newest_def)
  moreover have "last (newest ?n (history s @ [?u])) = ?u"
    using n by (simp add: newest_def)
  ultimately show ?thesis by (simp add: get_messages_def)
qed

text \<open>
  C2, as the claim has it, fails for \<open>max_turns = 0\<close>: \<^verbatim>\<open>add_user("x")\<close> appends the
  message and the trim evicts it at once, so the snapshot taken right after is the system
  message alone and its last element is not the user message.
\<close>

theorem snapshot_last_counterexample:
  "last (get_messages (fst (add_user (ConversationState_init 0 None) ''x''))) \<noteq>
     \<lparr>role = ''user'', content = ''x''\<rparr>"
  by (simp add: ConversationState_init_def add_user_def trim_def trim_loop.simps
        get_messages_def)

text \<open>
  C2, amended. With \<open>max_turns \<ge> 0\<close>, after any sequence of \<^verbatim>\<open>add_user\<close> and
  \<^verbatim>\<open>add_assistant\<close> calls on a new state the history is exactly the newest
  \<open>2 * max_turns\<close> appended messages in the order of the calls (eviction is from the
  oldest end only); and when \<open>max_turns \<ge> 1\<close>, the last element of the snapshot taken
  right after \<^verbatim>\<open>add_user(x)\<close> is the user message with content \<open>x\<close>.
\<close>

theorem newest_retained:
  "0 \<le> mt \<Longrightarrow>
   history (after_calls (ConversationState_init mt sp) calls) =
     newest (nat (2 * mt)) (map appended calls) \<and>
   (1 \<le> max_turns s \<longrightarrow>
      last (get_messages (fst (add_user s x))) = \<lparr>role = ''user'', content = x\<rparr>)"
proof
  assume mt: "0 \<le> mt"
  let ?s0 = "ConversationState_init mt sp"
  have "history (after_calls ?s0 calls) =
          newest (nat (2 * max_turns ?s0)) (history ?s0 @ map appended calls)"
    using mt by (intro after_calls_newest) (simp_all add: ConversationState_init_def)
  then show "history (after_calls ?s0 calls) = newest (nat (2 * mt)) (map appended calls)"
    by (simp add: ConversationState_init_def)
next
  show "1 \<le> max_turns s \<longrightarrow>
      last (get_messages (fst (add_user s x))) = \<lparr>role = ''user'', content = x\<rparr>"
    using add_user_last by blast
qed

theorem newest_retained_witness:
  "(0::int) \<le> 2 \<and>
   history (after_calls (ConversationState_init 2 None)
      [AddUser ''a1'', AddAssistant ''b1'', AddUser ''a2'', AddAssistant ''b2'', AddUser ''a3'']) =
     [\<lparr>role = ''assistant'', content = ''b1''\<rparr>, \<lparr>role = ''user'', content = ''a2''\<rparr>,
      \<lparr>role = ''assistant'', content = ''b2''\<rparr>, \<lparr>role = ''user'', content = ''a3''\<rparr>] \<and>
   (1::int) \<le> max_turns (ConversationState_init 2 None) \<and>
   last (get_messages (fst (add_user (ConversationState_init 2 None) ''x''))) =
     \<lparr>role = ''user'', content = ''x''\<rparr>"
proof -
  have h: "(0::int) \<le> 2" by simp
  have m: "(1::int) \<le> max_turns (ConversationState_init 2 None)"
    by (simp add: ConversationState_init_def)
  from newest_retained[OF h, of None
      "[AddUser ''a1'', AddAssistant ''b1'', AddUser ''a2'', AddAssistant ''b2'', AddUser ''a3'']"
      "ConversationState_init 2 None" "''x''"] m
  show ?thesis by (simp add: newest_def)
qed

subsection \<open>The snapshot\<close>

lemma filter_drop_empty: "filter P xs = [] \<Longrightarrow> filter P (drop k xs) = []"
  by (auto simp: filter_empty_conv dest: in_set_dropD)

lemma do_call_no_system:
  assumes "filter (\<lambda>m. role m = ''system'') (history s) = []"
  shows "filter (\<lambda>m. role m = ''system'') (history (fst (do_call s c))) = []"
proof -
  obtain k where k: "history (fst (do_call s c)) = drop k (history s @ [appended c])"
    using do_call_history_suffix by blast
  have "role (appended c) \<noteq> ''system''" by (cases c) simp_all
  with assms have "filter (\<lambda>m. role m = ''system'') (history s @ [appended c]) = []" by simp
  then show ?thesis unfolding k by (rule filter_drop_empty)
qed

lemma after_calls_no_system:
  "filter (\<lambda>m. role m = ''system'') (history s) = [] \<Longrightarrow>
   filter (\<lambda>m. role m = ''system'') (history (after_calls s calls)) = []"
  by (induction calls arbitrary: s) (simp_all add: do_call_no_system)

text \<open>
  C5. The snapshot of any state has the system message with the state's prompt as its
  first element and the whole history, in order, after it. For a state made by the constructor and any sequence of calls on it (for every
  \<open>max_turns\<close>, also after calls that raised), the snapshot is the system message with
  the configured prompt, or the default one when none or an empty one was given,
  followed by the whole history in order; the system message is the only message of the
  snapshot with role system; and the snapshot of the new state, whose history is empty,
  is the system message alone.
\<close>

theorem snapshot_system_first:
  "hd (get_messages s) = \<lparr>role = ''system'', content = system_prompt s\<rparr> \<and>
   tl (get_messages s) = history s \<and>
   get_messages (after_calls (ConversationState_init mt sp) calls) =
     \<lparr>role = ''system'',
      content = (case sp of None \<Rightarrow> default_system_prompt
                 | Some p \<Rightarrow> if p = [] then default_system_prompt else p)\<rparr> #
     history (after_calls (ConversationState_init mt sp) calls) \<and>
   filter (\<lambda>m. role m = ''system'')
       (get_messages (after_calls (ConversationState_init mt sp) calls)) =
     [\<lparr>role = ''system'',
       content = (case sp of None \<Rightarrow> default_system_prompt
                  | Some p \<Rightarrow> if p = [] then default_system_prompt else p)\<rparr>] \<and>
   get_messages (ConversationState_init mt sp) =
     [\<lparr>role = ''system'',
       content = (case sp of None \<Rightarrow> default_system_prompt
                  | Some p \<Rightarrow> if p = [] then default_system_prompt else p)\<rparr>]"
proof -
  let ?s0 = "ConversationState_init mt sp"
  let ?p = "case sp of None \<Rightarrow> default_system_prompt
            | Some p \<Rightarrow> if p = [] then default_system_prompt else p"
  have p: "system_prompt (after_calls ?s0 calls) = ?p"
    by (simp add: after_calls_config ConversationState_init_def)
  have "filter (\<lambda>m. role m = ''system'') (history ?s0) = []"
    by (simp add: ConversationState_init_def)
  then have "filter (\<lambda>m. role m = ''system'') (history (after_calls ?s0 calls)) = []"
    by (rule after_calls_no_system)
  with p show ?thesis by (simp add: get_messages_def ConversationState_init_def)
qed

subsection \<open>Reset\<close>

text \<open>
  C7. \<^verbatim>\<open>reset()\<close> never raises; it leaves the history empty and \<open>max_turns\<close> and the
  system prompt as they were; a second \<^verbatim>\<open>reset()\<close> right after it changes nothing, so
  the state and its snapshot are the same after two resets as after one.
\<close>

theorem reset_idempotent:
  "snd (reset s) = Inr () \<and>
   history (fst (reset s)) = [] \<and>
   max_turns (fst (reset s)) = max_turns s \<and>
   system_prompt (fst (reset s)) = system_prompt s \<and>
   reset (fst (reset s)) = reset s \<and>
   get_messages (fst (reset (fst (reset s)))) = get_messages (fst (reset s))"
  by (simp add: reset_def)

section \<open>Properties of reply generation\<close>

lemma hf_prompt_loop_filter:
  "hf_prompt_loop (filter (\<lambda>m. role m \<noteq> ''system'') msgs) p = hf_prompt_loop msgs p"
  by (induction msgs arbitrary: p) simp_all

lemma hf_prompt_snapshot: "hf_prompt (get_messages s) = hf_prompt (history s)"
  by (simp add: hf_prompt_def get_messages_def)

lemma chat_unset:
  "env ''LLM_BACKEND'' = None \<Longrightarrow>
   chat env B msgs = chat_hf B msgs (environ_get env ''HF_MODEL'' ''TinyLlama/TinyLlama-1.1B-Chat-v1.0'')"
proof -
  assume "env ''LLM_BACKEND'' = None"
  then have "environ_get env ''LLM_BACKEND'' ''hf'' = ''hf''" by (simp add: environ_get_def)
  moreover have "lower ''hf'' = ''hf''" by code_simp
  ultimately show ?thesis by (simp add: chat_def)
qed

text \<open>
  C10. The prompt that \<^verbatim>\<open>chat_hf\<close> builds is the prompt of the messages without those
  of role system, so the reply it computes from a snapshot is the same for every system
  prompt of the state; and when \<^verbatim>\<open>LLM_BACKEND\<close> is unset, \<^verbatim>\<open>chat\<close> is \<^verbatim>\<open>chat_hf\<close>
  (with the model of \<^verbatim>\<open>HF_MODEL\<close> or the default model), so its reply does not depend on
  the system prompt either.
\<close>

theorem hf_ignores_system:
  "hf_prompt msgs = hf_prompt (filter (\<lambda>m. role m \<noteq> ''system'') msgs) \<and>
   chat_hf B (get_messages (s\<lparr>system_prompt := p\<rparr>)) model = chat_hf B (get_messages s) model \<and>
   (env ''LLM_BACKEND'' = None \<longrightarrow>
      chat env B msgs =
        chat_hf B msgs (environ_get env ''HF_MODEL'' ''TinyLlama/TinyLlama-1.1B-Chat-v1.0'') \<and>
      chat env B (get_messages (s\<lparr>system_prompt := p\<rparr>)) = chat env B (get_messages s))"
proof (intro conjI impI)
  show "hf_prompt msgs = hf_prompt (filter (\<lambda>m. role m \<noteq> ''system'') msgs)"
    by (simp add: hf_prompt_def hf_prompt_loop_filter)
  show eq: "chat_hf B (get_messages (s\<lparr>system_prompt := p\<rparr>)) model = chat_hf B (get_messages s) model"
    for model
    by (simp add: chat_hf_def hf_prompt_snapshot)
  assume unset: "env ''LLM_BACKEND'' = None"
  then show "chat env B msgs =
      chat_hf B msgs (environ_get env ''HF_MODEL'' ''TinyLlama/TinyLlama-1.1B-Chat-v1.0'')"
    by (rule chat_unset)
  show "chat env B (get_messages (s\<lparr>system_prompt := p\<rparr>)) = chat env B (get_messages s)"
    by (simp add: chat_unset[of env, OF unset] eq)
qed

theorem hf_ignores_system_witness:
  "(\<lambda>k. None :: string option) ''LLM_BACKEND'' = None \<and>
   chat (\<lambda>k. None) example_backends
     (get_messages ((fst (add_user (ConversationState_init 8 None) ''hi''))
        \<lparr>system_prompt := ''Answer in French.''\<rparr>)) = Inr ''Hello there.'' \<and>
   chat (\<lambda>k. None) example_backends
     (get_messages (fst (add_user (ConversationState_init 8 None) ''hi''))) = Inr ''Hello there.''"
proof -
  have unset: "(\<lambda>k. None :: string option) ''LLM_BACKEND'' = None" by simp
  let ?s = "fst (add_user (ConversationState_init 8 None) ''hi'')"
  have s: "history ?s = [\<lparr>role = ''user'', content = ''hi''\<rparr>]"
    by (simp add: add_user_def ConversationState_init_def trim_def trim_loop.simps)
  have pr: "hf_prompt (get_messages ?s) = ''User: hi'' @ [CHR 0x0A] @ ''Assistant: ''"
    unfolding hf_prompt_snapshot s by (simp add: hf_prompt_def)
  have sp: "strip (split_once_last ''Assistant:''
              ((''User: hi'' @ [CHR 0x0A] @ ''Assistant: '') @ ''Hello there. '')) = ''Hello there.''"
    by code_simp
  have run: "chat_hf example_backends (get_messages ?s) ''TinyLlama/TinyLlama-1.1B-Chat-v1.0'' =
      Inr ''Hello there.''"
    unfolding chat_hf_def pr using sp by (simp add: example_backends_def)
  from hf_ignores_system[where msgs = "get_messages ?s" and B = example_backends and s = ?s
      and p = "''Answer in French.''" and env = "\<lambda>k. None"
      and model = "''TinyLlama/TinyLlama-1.1B-Chat-v1.0''"] unset run
  show ?thesis by (simp add: environ_get_def)
qed

section \<open>Properties of speech to text\<close>

subsection \<open>Choice of the engine\<close>

lemma of_char_lower_char:
  "(of_char (lower_char c) :: nat) =
     (if (65 \<le> (of_char c :: nat) \<and> (of_char c :: nat) \<le> 90) \<or>
         (192 \<le> (of_char c :: nat) \<and> (of_char c :: nat) \<le> 222 \<and> (of_char c :: nat) \<noteq> 215)
      then of_char c + 32 else of_char c)"
  by (simp add: lower_char_def Let_def)

lemma lower_char_letter:
  assumes "97 \<le> (of_char l :: nat)" and "(of_char l :: nat) \<le> 122"
  shows "lower_char c = l \<longleftrightarrow> same_letter c l"
proof -
  have "lower_char c = l \<longleftrightarrow> (of_char (lower_char c) :: nat) = of_char l"
    by simp
  also have "\<dots> \<longleftrightarrow> (c = l \<or> (of_char c :: nat) + 32 = of_char l)"
  proof (cases "(65 \<le> (of_char c :: nat) \<and> (of_char c :: nat) \<le> 90) \<or>
         (192 \<le> (of_char c :: nat) \<and> (of_char c :: nat) \<le> 222 \<and> (of_char c :: nat) \<noteq> 215)")
    case True
    then have "c \<noteq> l" using assms by auto
    with True show ?thesis unfolding of_char_lower_char by simp
  next
    case False
    then have ne: "(of_char c :: nat) + 32 \<noteq> of_char l" using assms by auto
    from False have "(of_char (lower_char c) :: nat) = of_char c"
      unfolding of_char_lower_char by simp
    then have "(of_char (lower_char c) :: nat) = of_char l \<longleftrightarrow> c = l"
      by simp
    with ne show ?thesis by simp
  qed
  finally show ?thesis by (simp add: same_letter_def)
qed

lemma lower_google: "lower e = ''google'' \<longleftrightarrow> names_google e"
proof -
  have g: "lower_char c = CHR ''g'' \<longleftrightarrow> same_letter c CHR ''g''" for c
    by (rule lower_char_letter) simp_all
  have o: "lower_char c = CHR ''o'' \<longleftrightarrow> same_letter c CHR ''o''" for c
    by (rule lower_char_letter) simp_all
  have l: "lower_char c = CHR ''l'' \<longleftrightarrow> same_letter c CHR ''l''" for c
    by (rule lower_char_letter) simp_all
  have e: "lower_char c = CHR ''e'' \<longleftrightarrow> same_letter c CHR ''e''" for c
    by (rule lower_char_letter) simp_all
  show ?thesis
    unfolding lower_def names_google_def
    by (auto simp: list_all2_Cons2 g o l e)
qed

lemma names_google_nonempty: "names_google e \<Longrightarrow> e \<noteq> []"
  by (auto simp: names_google_def)

lemma transcribe_engine:
  "transcribe B fs n wav_path engine api_key =
     (case engine of
        None \<Rightarrow> (n, transcribe_whisper B fs wav_path ''base'')
      | Some e \<Rightarrow>
          if names_google e then transcribe_google B fs n wav_path api_key
          else (n, transcribe_whisper B fs wav_path ''base''))"
proof (cases engine)
  case None
  have "lower ''whisper'' \<noteq> ''google''" by code_simp
  with None show ?thesis by (simp add: transcribe_def)
next
  case (Some e)
  show ?thesis
  proof (cases "e = []")
    case True
    have "lower ''whisper'' \<noteq> ''google''" by code_simp
    moreover have "\<not> names_google e" using True names_google_nonempty by blast
    ultimately show ?thesis using Some True by (simp add: transcribe_def)
  next
    case False
    with Some show ?thesis by (simp add: transcribe_def lower_google)
  qed
qed

text \<open>
  C9. \<^verbatim>\<open>transcribe\<close> never rejects an engine identifier: it runs the Google engine
  exactly when the identifier is \<^verbatim>\<open>"google"\<close> compared case-insensitively, and the
  whisper engine (model \<^verbatim>\<open>"base"\<close>) for every other string, for the empty string and
  for \<^verbatim>\<open>None\<close>.
\<close>

theorem transcribe_dispatch:
  "transcribe B fs n wav_path engine api_key =
     (case engine of
        None \<Rightarrow> (n, transcribe_whisper B fs wav_path ''base'')
      | Some e \<Rightarrow>
          if names_google e then transcribe_google B fs n wav_path api_key
          else (n, transcribe_whisper B fs wav_path ''base''))"
  by (rule transcribe_engine)

lemma examples_names_google:
  "names_google ''google'' \<and> names_google ''GOOGLE'' \<and> names_google ''GoOgLe'' \<and>
   \<not> names_google ''whisper'' \<and> \<not> names_google ''google '' \<and> \<not> names_google ''azure'' \<and>
   \<not> names_google ''''"
  by (simp add: names_google_def same_letter_def)

subsection \<open>Outcomes of the engines\<close>

lemma transcribe_google_unknown:
  assumes "names_google e" and "record_audio B (fs p) = Inr audio"
    and "recognize_google B n audio key = UnknownValueError"
  shows "transcribe B fs n p (Some e) key = (Suc n, Inr ([], 0))"
  using assms by (simp add: transcribe_engine transcribe_google_def)

lemma transcribe_google_request_error:
  assumes "names_google e" and "record_audio B (fs p) = Inr audio"
    and "recognize_google B n audio key = RequestError msg"
  shows "transcribe B fs n p (Some e) key =
           (Suc n, Inl (RuntimeError (''Google ASR request error: '' @ msg)))"
  using assms by (simp add: transcribe_engine transcribe_google_def)

lemma transcribe_whisper_blank:
  assumes "\<not> names_google e"
    and "whisper_transcribe B ''base'' (fs p) = Inr \<lparr>w_text = t, w_segments = Some (seg # segs)\<rparr>"
    and "strip (case t of None \<Rightarrow> [] | Some x \<Rightarrow> x) = []"
  shows "transcribe B fs n p (Some e) key =
           (n, Inr ([], 1 - (case seg of None \<Rightarrow> 0.2 | Some q \<Rightarrow> q)))"
  using assms by (simp add: transcribe_engine transcribe_whisper_def)

text \<open>
  C8, as the claim has it, fails for the whisper engine, the default one: when it
  transcribes no text, the confidence returned is one minus the no-speech probability of
  the first segment, not \<open>0.0\<close>. Here the text is blank and that probability is one half.
\<close>

theorem whisper_blank_counterexample:
  "transcribe example_backends (\<lambda>p. Some ''RIFF'') 0 ''in.wav'' (Some ''whisper'') None =
     (0, Inr ('''', 1 / 2)) \<and>
   transcribe example_backends (\<lambda>p. Some ''RIFF'') 0 ''in.wav'' (Some ''whisper'') None \<noteq>
     (0, Inr ('''', 0))"
proof -
  have "\<not> names_google ''whisper''" by (simp add: names_google_def)
  moreover have "strip '' '' = ''''" by code_simp
  ultimately show ?thesis
    by (simp add: transcribe_engine transcribe_whisper_def example_backends_def)
qed

text \<open>
  C8, amended. With the Google engine selected: when the recognizer finds no
  intelligible speech (\<^verbatim>\<open>UnknownValueError\<close>), \<^verbatim>\<open>transcribe\<close> returns \<open>("", 0.0)\<close> and
  raises nothing; when the request to the service fails (\<^verbatim>\<open>RequestError\<close>),
  \<^verbatim>\<open>transcribe\<close> raises a RuntimeError with the failure's message to the caller; in both
  cases exactly one request has been sent (no retry). With the whisper engine selected, a
  transcription with blank text and at least one segment is returned as the empty text
  with confidence one minus the no-speech probability of the first segment (\<open>0.2\<close> when
  the segment has none), and no request is sent.
\<close>

theorem transcribe_failure_policy:
  "(names_google e \<and> record_audio B (fs p) = Inr audio \<and>
      recognize_google B n audio key = UnknownValueError \<longrightarrow>
      transcribe B fs n p (Some e) key = (Suc n, Inr ('''', 0))) \<and>
   (names_google e' \<and> record_audio B (fs p') = Inr audio' \<and>
      recognize_google B n' audio' key' = RequestError msg \<longrightarrow>
      transcribe B fs n' p' (Some e') key' =
        (Suc n', Inl (RuntimeError (''Google ASR request error: '' @ msg)))) \<and>
   (\<not> names_google w \<and>
      whisper_transcribe B ''base'' (fs q) = Inr \<lparr>w_text = t, w_segments = Some (seg # segs)\<rparr> \<and>
      strip (case t of None \<Rightarrow> [] | Some x \<Rightarrow> x) = [] \<longrightarrow>
      transcribe B fs m q (Some w) k =
        (m, Inr ('''', 1 - (case seg of None \<Rightarrow> 0.2 | Some r \<Rightarrow> r))))"
proof (intro conjI impI)
  assume "names_google e \<and> record_audio B (fs p) = Inr audio \<and>
      recognize_google B n audio key = UnknownValueError"
  then show "transcribe B fs n p (Some e) key = (Suc n, Inr ('''', 0))"
    by (intro transcribe_google_unknown[where audio = audio]) simp_all
next
  assume "names_google e' \<and> record_audio B (fs p') = Inr audio' \<and>
      recognize_google B n' audio' key' = RequestError msg"
  then show "transcribe B fs n' p' (Some e') key' =
        (Suc n', Inl (RuntimeError (''Google ASR request error: '' @ msg)))"
    by (intro transcribe_google_request_error[where audio = audio']) simp_all
next
  assume "\<not> names_google w \<and>
      whisper_transcribe B ''base'' (fs q) = Inr \<lparr>w_text = t, w_segments = Some (seg # segs)\<rparr> \<and>
      strip (case t of None \<Rightarrow> [] | Some x \<Rightarrow> x) = []"
  then show "transcribe B fs m q (Some w) k =
        (m, Inr ('''', 1 - (case seg of None \<Rightarrow> 0.2 | Some r \<Rightarrow> r)))"
    by (intro transcribe_whisper_blank[where t = t and segs = segs]) simp_all
qed

theorem transcribe_failure_policy_witness:
  "names_google ''Google'' \<and>
   record_audio example_backends (Some ''RIFF'') = Inr () \<and>
   recognize_google example_backends 0 () None = UnknownValueError \<and>
   transcribe example_backends (\<lambda>p. Some ''RIFF'') 0 ''in.wav'' (Some ''Google'') None =
     (1, Inr ('''', 0)) \<and>
   recognize_google example_backends 1 () None = RequestError ''recognition connection failed'' \<and>
   transcribe example_backends (\<lambda>p. Some ''RIFF'') 1 ''in.wav'' (Some ''Google'') None =
     (2, Inl (RuntimeError ''Google ASR request error: recognition connection failed'')) \<and>
   \<not> names_google ''whisper'' \<and>
   strip '' '' = '''' \<and>
   transcribe example_backends (\<lambda>p. Some ''RIFF'') 5 ''in.wav'' (Some ''whisper'') None =
     (5, Inr ('''', 1 / 2))"
proof -
  have g: "names_google ''Google''" by (simp add: names_google_def same_letter_def)
  have a: "record_audio example_backends ((\<lambda>p. Some ''RIFF'') ''in.wav'') = Inr ()"
    by (simp add: example_backends_def)
  have u: "recognize_google example_backends 0 () None = UnknownValueError"
    by (simp add: example_backends_def)
  have r: "recognize_google example_backends 1 () None =
             RequestError ''recognition connection failed''"
    by (simp add: example_backends_def)
  have w: "\<not> names_google ''whisper''" by (simp add: names_google_def)
  have wt: "whisper_transcribe example_backends ''base'' ((\<lambda>p. Some ''RIFF'') ''in.wav'') =
      Inr \<lparr>w_text = Some '' '', w_segments = Some (Some (1 / 2) # [])\<rparr>"
    by (simp add: example_backends_def)
  have st: "strip '' '' = ''''" by code_simp
  have st': "strip (case Some '' '' of None \<Rightarrow> [] | Some x \<Rightarrow> x) = []" using st by simp
  from transcribe_failure_policy[where e = "''Google''" and B = example_backends
      and fs = "\<lambda>p. Some ''RIFF''" and p = "''in.wav''" and audio = "()" and n = 0 and key = None
      and e' = "''Google''" and p' = "''in.wav''" and audio' = "()" and n' = 1 and key' = None
      and msg = "''recognition connection failed''"
      and w = "''whisper''" and q = "''in.wav''" and t = "Some '' ''" and seg = "Some (1 / 2)"
      and segs = "[]" and m = 5 and k = None]
    g a u r w wt st'
  show ?thesis using st by simp
qed

section \<open>Properties of the endpoints\<close>

lemma trim_loop_negative: "mt < 0 \<Longrightarrow> trim_loop mt h = ([], Some IndexError)"
proof (induction h)
  case Nil
  then show ?case by (simp add: trim_loop.simps[of mt "[]"])
next
  case (Cons m rest)
  then show ?case by (simp add: trim_loop.simps[of mt "m # rest"])
qed

lemma add_user_negative:
  "max_turns s < 0 \<Longrightarrow> add_user s t = (s\<lparr>history := []\<rparr>, Inl IndexError)"
  by (simp add: add_user_def trim_def trim_loop_negative)

lemma add_user_nonneg:
  "0 \<le> max_turns s \<Longrightarrow>
   add_user s t =
     (s\<lparr>history := newest (nat (2 * max_turns s)) (history s @ [\<lparr>role = ''user'', content = t\<rparr>])\<rparr>,
      Inr ())"
  by (simp add: add_user_def trim_nonneg)

lemma add_assistant_nonneg:
  "0 \<le> max_turns s \<Longrightarrow>
   add_assistant s t =
     (s\<lparr>history :=
          newest (nat (2 * max_turns s)) (history s @ [\<lparr>role = ''assistant'', content = t\<rparr>])\<rparr>,
      Inr ())"
  by (simp add: add_assistant_def trim_nonneg)

lemma reply_endpoint_returns:
  assumes "0 \<le> max_turns (state sv)"
    and "chat env B (get_messages (fst (add_user (state sv) text))) = Inr reply"
  shows "reply_endpoint env B sv text =
           (sv\<lparr>state := fst (add_assistant (fst (add_user (state sv) text)) reply)\<rparr>,
            Inr (ReplyText reply))"
proof -
  obtain s1 where u: "add_user (state sv) text = (s1, Inr ())" and mt1: "0 \<le> max_turns s1"
    using assms(1) by (simp add: add_user_nonneg)
  obtain s2 where a: "add_assistant s1 reply = (s2, Inr ())"
    using mt1 by (simp add: add_assistant_nonneg)
  from assms(2) u have ch: "chat env B (get_messages s1) = Inr reply" by simp
  show ?thesis by (simp add: reply_endpoint_def u ch a)
qed

lemma reply_endpoint_raises:
  assumes "0 \<le> max_turns (state sv)"
    and "chat env B (get_messages (fst (add_user (state sv) text))) = Inl e"
  shows "reply_endpoint env B sv text = (sv\<lparr>state := fst (add_user (state sv) text)\<rparr>, Inl e)"
proof -
  obtain s1 where u: "add_user (state sv) text = (s1, Inr ())"
    using assms(1) by (simp add: add_user_nonneg)
  from assms(2) u have ch: "chat env B (get_messages s1) = Inl e" by simp
  show ?thesis by (simp add: reply_endpoint_def u ch)
qed

lemma home_state: "state (fst (home sv)) = state sv"
  by (simp add: home_def split: option.splits)

lemma asr_endpoint_state: "state (fst (asr_endpoint env B tmp sv engine file)) = state sv"
  by (simp add: asr_endpoint_def Let_def split: prod.splits sum.splits)

lemma speak_endpoint_state: "state (fst (speak_endpoint env B tmp sv text)) = state sv"
  by (simp add: speak_endpoint_def Let_def split: sum.splits)

lemma chat_ollama_unreachable:
  assumes "lower (environ_get env ''LLM_BACKEND'' ''hf'') \<noteq> ''hf''"
    and "ollama_post B (environ_get env ''OLLAMA_URL'' ''http://localhost:11434/api/chat'')
           (environ_get env ''LLM_MODEL'' ''llama3'') msgs = Inl e"
  shows "chat env B msgs = Inl e"
  using assms by (simp add: chat_def chat_ollama_def Let_def)

lemma example_hf_reply:
  "chat (\<lambda>k. None) example_backends
     [\<lparr>role = ''system'', content = p\<rparr>, \<lparr>role = ''user'', content = ''hi''\<rparr>] =
   Inr ''Hello there.''"
proof -
  have pr: "hf_prompt [\<lparr>role = ''system'', content = p\<rparr>, \<lparr>role = ''user'', content = ''hi''\<rparr>] =
      ''User: hi'' @ [CHR 0x0A] @ ''Assistant: ''"
    by (simp add: hf_prompt_def)
  have sp: "strip (split_once_last ''Assistant:''
              ((''User: hi'' @ [CHR 0x0A] @ ''Assistant: '') @ ''Hello there. '')) = ''Hello there.''"
    by code_simp
  have "chat_hf example_backends
          [\<lparr>role = ''system'', content = p\<rparr>, \<lparr>role = ''user'', content = ''hi''\<rparr>]
          ''TinyLlama/TinyLlama-1.1B-Chat-v1.0'' = Inr ''Hello there.''"
    unfolding chat_hf_def pr using sp by (simp add: example_backends_def)
  then show ?thesis by (simp add: chat_unset environ_get_def)
qed

text \<open>
  C3. When \<open>max_turns \<ge> 0\<close> and the reply generator returns a reply for the snapshot
  taken after the user message was appended, \<^verbatim>\<open>/reply\<close> leaves the state that
  \<^verbatim>\<open>add_user(text)\<close> followed by \<^verbatim>\<open>add_assistant(reply)\<close> gives and responds with that
  reply: the snapshot handed to the generator is the system message and the trimmed
  history ending in the user message, and the history afterwards is the newest
  \<open>2 * max_turns\<close> of the old history, the user message and the assistant message.
  The home page, \<^verbatim>\<open>/transcribe\<close> and \<^verbatim>\<open>/speak\<close> leave the state as it is, whatever
  their outcome.
\<close>

theorem reply_sequence:
  "0 \<le> max_turns (state sv) \<Longrightarrow>
   chat env B (get_messages (fst (add_user (state sv) text))) = Inr reply \<Longrightarrow>
   get_messages (fst (add_user (state sv) text)) =
     \<lparr>role = ''system'', content = system_prompt (state sv)\<rparr> #
     newest (nat (2 * max_turns (state sv)))
       (history (state sv) @ [\<lparr>role = ''user'', content = text\<rparr>]) \<and>
   handle env B tmp sv (Reply text) =
     (sv\<lparr>state := fst (add_assistant (fst (add_user (state sv) text)) reply)\<rparr>,
      Inr (ReplyText reply)) \<and>
   history (state (fst (handle env B tmp sv (Reply text)))) =
     newest (nat (2 * max_turns (state sv)))
       (history (state sv) @
        [\<lparr>role = ''user'', content = text\<rparr>, \<lparr>role = ''assistant'', content = reply\<rparr>]) \<and>
   state (fst (handle env B tmp sv Home)) = state sv \<and>
   state (fst (handle env B tmp sv (Transcribe engine file))) = state sv \<and>
   state (fst (handle env B tmp sv (Speak t))) = state sv"
proof -
  assume mt: "0 \<le> max_turns (state sv)"
    and ch: "chat env B (get_messages (fst (add_user (state sv) text))) = Inr reply"
  let ?n = "nat (2 * max_turns (state sv))"
  let ?u = "\<lparr>role = ''user'', content = text\<rparr>"
  let ?a = "\<lparr>role = ''assistant'', content = reply\<rparr>"
  have snap: "get_messages (fst (add_user (state sv) text)) =
      \<lparr>role = ''system'', content = system_prompt (state sv)\<rparr> #
      newest ?n (history (state sv) @ [?u])"
    using mt by (simp add: add_user_nonneg get_messages_def)
  have ep: "reply_endpoint env B sv text =
      (sv\<lparr>state := fst (add_assistant (fst (add_user (state sv) text)) reply)\<rparr>,
       Inr (ReplyText reply))"
    using mt ch by (rule reply_endpoint_returns)
  have "history (fst (add_assistant (fst (add_user (state sv) text)) reply)) =
      newest ?n (newest ?n (history (state sv) @ [?u]) @ [?a])"
    using mt by (simp add: add_user_nonneg add_assistant_nonneg)
  also have "\<dots> = newest ?n ((history (state sv) @ [?u]) @ [?a])"
    by (rule newest_newest_append)
  finally have hist: "history (fst (add_assistant (fst (add_user (state sv) text)) reply)) =
      newest ?n (history (state sv) @ [?u, ?a])"
    by simp
  show ?thesis
    using snap ep hist by (simp add: home_state asr_endpoint_state speak_endpoint_state)
qed

theorem reply_sequence_witness:
  "(0::int) \<le> max_turns (state (example_server 1)) \<and>
   chat (\<lambda>k. None) example_backends
     (get_messages (fst (add_user (state (example_server 1)) ''hi''))) = Inr ''Hello there.'' \<and>
   handle (\<lambda>k. None) example_backends ''tmp'' (example_server 1) (Reply ''hi'') =
     ((example_server 1)
        \<lparr>state := (state (example_server 1))
           \<lparr>history := [\<lparr>role = ''user'', content = ''hi''\<rparr>,
                        \<lparr>role = ''assistant'', content = ''Hello there.''\<rparr>]\<rparr>\<rparr>,
      Inr (ReplyText ''Hello there.''))"
proof -
  have mt: "(0::int) \<le> max_turns (state (example_server 1))"
    by (simp add: example_server_def ConversationState_init_def)
  have s1: "fst (add_user (state (example_server 1)) ''hi'') =
      (state (example_server 1))\<lparr>history := [\<lparr>role = ''user'', content = ''hi''\<rparr>]\<rparr>"
    using mt
    by (simp add: add_user_nonneg example_server_def ConversationState_init_def newest_def)
  have ch: "chat (\<lambda>k. None) example_backends
     (get_messages (fst (add_user (state (example_server 1)) ''hi''))) = Inr ''Hello there.''"
    unfolding s1 by (simp add: get_messages_def example_hf_reply)
  have s2: "fst (add_assistant (fst (add_user (state (example_server 1)) ''hi'')) ''Hello there.'') =
      (state (example_server 1))
        \<lparr>history := [\<lparr>role = ''user'', content = ''hi''\<rparr>,
                     \<lparr>role = ''assistant'', content = ''Hello there.''\<rparr>]\<rparr>"
    unfolding s1
    by (simp add: add_assistant_nonneg example_server_def ConversationState_init_def newest_def)
  from reply_sequence[OF mt ch, of "''tmp''"] mt ch show ?thesis
    unfolding s2 by simp
qed

text \<open>
  C4, as the claim has it, fails for \<open>max_turns = 0\<close>: the trim inside \<^verbatim>\<open>add_user\<close>
  evicts the user message before the generator is called, so when no Ollama server
  answers, \<^verbatim>\<open>/reply\<close> raises and the history holds no user message.
\<close>

theorem reply_failure_counterexample:
  "snd (reply_endpoint (\<lambda>k. if k = ''LLM_BACKEND'' then Some ''ollama'' else None)
          example_backends (example_server 0) ''hi'') = Inl (BackendError ''ConnectError'') \<and>
   history (state (fst (reply_endpoint
      (\<lambda>k. if k = ''LLM_BACKEND'' then Some ''ollama'' else None)
      example_backends (example_server 0) ''hi''))) = [] \<and>
   \<lparr>role = ''user'', content = ''hi''\<rparr> \<notin> set (history (state (fst (reply_endpoint
      (\<lambda>k. if k = ''LLM_BACKEND'' then Some ''ollama'' else None)
      example_backends (example_server 0) ''hi''))))"
proof -
  let ?env = "\<lambda>k. if k = ''LLM_BACKEND'' then Some ''ollama'' else None"
  have mt: "(0::int) \<le> max_turns (state (example_server 0))"
    by (simp add: example_server_def ConversationState_init_def)
  have s1: "fst (add_user (state (example_server 0)) ''hi'') = state (example_server 0)"
    using mt
    by (simp add: add_user_nonneg example_server_def ConversationState_init_def newest_def)
  have lo: "lower ''ollama'' \<noteq> ''hf''" by code_simp
  have ch: "chat ?env example_backends
     (get_messages (fst (add_user (state (example_server 0)) ''hi''))) =
     Inl (BackendError ''ConnectError'')"
    by (rule chat_ollama_unreachable) (simp_all add: environ_get_def lo example_backends_def)
  have "reply_endpoint ?env example_backends (example_server 0) ''hi'' =
      ((example_server 0)\<lparr>state := fst (add_user (state (example_server 0)) ''hi'')\<rparr>,
       Inl (BackendError ''ConnectError''))"
    using mt ch by (rule reply_endpoint_raises)
  then show ?thesis
    unfolding s1 by (simp add: example_server_def ConversationState_init_def)
qed

text \<open>
  C4, amended. When \<open>max_turns \<ge> 0\<close> (so that \<^verbatim>\<open>add_user\<close> returns and the generator
  is called)
  and the reply generator raises on the snapshot, \<^verbatim>\<open>/reply\<close> raises the same error to
  its caller and leaves the state exactly as \<^verbatim>\<open>add_user\<close> left it: the history is the
  trimmed old history with the user message appended, nothing is rolled back and no
  assistant message is appended; with \<open>max_turns \<ge> 1\<close> the user message is the last
  element of the history.
\<close>

theorem reply_failure_keeps_user_message:
  "0 \<le> max_turns (state sv) \<Longrightarrow>
   chat env B (get_messages (fst (add_user (state sv) text))) = Inl e \<Longrightarrow>
   reply_endpoint env B sv text = (sv\<lparr>state := fst (add_user (state sv) text)\<rparr>, Inl e) \<and>
   history (state (fst (reply_endpoint env B sv text))) =
     newest (nat (2 * max_turns (state sv)))
       (history (state sv) @ [\<lparr>role = ''user'', content = text\<rparr>]) \<and>
   (1 \<le> max_turns (state sv) \<longrightarrow>
      history (state (fst (reply_endpoint env B sv text))) \<noteq> [] \<and>
      last (history (state (fst (reply_endpoint env B sv text)))) =
        \<lparr>role = ''user'', content = text\<rparr>)"
proof -
  assume mt: "0 \<le> max_turns (state sv)"
    and ch: "chat env B (get_messages (fst (add_user (state sv) text))) = Inl e"
  let ?n = "nat (2 * max_turns (state sv))"
  let ?u = "\<lparr>role = ''user'', content = text\<rparr>"
  have ep: "reply_endpoint env B sv text = (sv\<lparr>state := fst (add_user (state sv) text)\<rparr>, Inl e)"
    using mt ch by (rule reply_endpoint_raises)
  have hist: "history (fst (add_user (state sv) text)) = newest ?n (history (state sv) @ [?u])"
    using mt by (simp add: add_user_nonneg)
  have "newest ?n (history (state sv) @ [?u]) \<noteq> [] \<and>
        last (newest ?n (history (state sv) @ [?u])) = ?u"
    if "1 \<le> max_turns (state sv)"
    using that by (simp add: newest_def)
  with ep hist show ?thesis by simp
qed

theorem reply_failure_keeps_user_message_witness:
  "(0::int) \<le> max_turns (state (example_server 8)) \<and>
   (1::int) \<le> max_turns (state (example_server 8)) \<and>
   chat (\<lambda>k. if k = ''LLM_BACKEND'' then Some ''ollama'' else None) example_backends
     (get_messages (fst (add_user (state (example_server 8)) ''hi''))) =
     Inl (BackendError ''ConnectError'') \<and>
   reply_endpoint (\<lambda>k. if k = ''LLM_BACKEND'' then Some ''ollama'' else None) example_backends
     (example_server 8) ''hi'' =
     ((example_server 8)
        \<lparr>state := (state (example_server 8))
           \<lparr>history := [\<lparr>role = ''user'', content = ''hi''\<rparr>]\<rparr>\<rparr>,
      Inl (BackendError ''ConnectError''))"
proof -
  let ?env = "\<lambda>k. if k = ''LLM_BACKEND'' then Some ''ollama'' else None"
  have mt: "(0::int) \<le> max_turns (state (example_server 8))"
    by (simp add: example_server_def ConversationState_init_def)
  have mt1: "(1::int) \<le> max_turns (state (example_server 8))"
    by (simp add: example_server_def ConversationState_init_def)
  have s1: "fst (add_user (state (example_server 8)) ''hi'') =
      (state (example_server 8))\<lparr>history := [\<lparr>role = ''user'', content = ''hi''\<rparr>]\<rparr>"
    using mt
    by (simp add: add_user_nonneg example_server_def ConversationState_init_def newest_def)
  have lo: "lower ''ollama'' \<noteq> ''hf''" by code_simp
  have ch: "chat ?env example_backends
     (get_messages (fst (add_user (state (example_server 8)) ''hi''))) =
     Inl (BackendError ''ConnectError'')"
    by (rule chat_ollama_unreachable) (simp_all add: environ_get_def lo example_backends_def)
  from reply_failure_keeps_user_message[OF mt ch] mt mt1 ch show ?thesis
    unfolding s1 by simp
qed

section \<open>Properties of the snapshot as an object\<close>

subsection \<open>Reading the heap\<close>

lemma seq_at_less: "seq_at hp a = Some xs \<Longrightarrow> a < length hp"
  by (simp add: seq_at_def split: if_splits)

lemma dict_at_less: "dict_at hp a = Some m \<Longrightarrow> a < length hp"
  by (simp add: dict_at_def split: if_splits)

lemma seq_at_not_dict: "seq_at hp a = Some xs \<Longrightarrow> dict_at hp a = None"
  by (simp add: seq_at_def dict_at_def split: if_splits obj.splits)

lemma seq_at_append: "a < length hp \<Longrightarrow> seq_at (hp @ zs) a = seq_at hp a"
  by (simp add: seq_at_def nth_append)

lemma dict_at_append: "a < length hp \<Longrightarrow> dict_at (hp @ zs) a = dict_at hp a"
  by (simp add: dict_at_def nth_append)

lemma seq_at_update_other: "a \<noteq> b \<Longrightarrow> seq_at (hp[b := v]) a = seq_at hp a"
  by (simp add: seq_at_def)

lemma dict_at_update_other: "a \<noteq> b \<Longrightarrow> dict_at (hp[b := v]) a = dict_at hp a"
  by (simp add: dict_at_def)

lemma seq_at_update_same: "b < length hp \<Longrightarrow> seq_at (hp[b := Seq ys]) b = Some ys"
  by (simp add: seq_at_def)

lemma map_dict_at_append:
  "list_all (\<lambda>a. dict_at hp a \<noteq> None) xs \<Longrightarrow>
   map (dict_at (hp @ zs)) xs = map (dict_at hp) xs"
  by (induction xs) (auto simp: dict_at_append dest: dict_at_less)

lemma list_all_dict_at_append:
  assumes "list_all (\<lambda>a. dict_at hp a \<noteq> None) xs"
  shows "list_all (\<lambda>a. dict_at (hp @ zs) a \<noteq> None) xs"
proof -
  have "dict_at (hp @ zs) a \<noteq> None" if "a \<in> set xs" for a
  proof -
    from that assms obtain m where m: "dict_at hp a = Some m" by (auto simp: list_all_iff)
    then have "a < length hp" by (rule dict_at_less)
    then have "dict_at (hp @ zs) a = dict_at hp a" by (rule dict_at_append)
    with m show ?thesis by simp
  qed
  then show ?thesis by (simp add: list_all_iff)
qed

lemma map_dict_at_update_seq:
  assumes "list_all (\<lambda>a. dict_at hp a \<noteq> None) xs" and "seq_at hp d = Some zs"
  shows "map (dict_at (hp[d := v])) xs = map (dict_at hp) xs"
proof -
  have "dict_at (hp[d := v]) a = dict_at hp a" if "a \<in> set xs" for a
  proof -
    from that assms(1) have "dict_at hp a \<noteq> None" by (simp add: list_all_iff)
    with assms(2) have "a \<noteq> d" using seq_at_not_dict by fastforce
    then show ?thesis by (rule dict_at_update_other)
  qed
  then show ?thesis by simp
qed

subsection \<open>The returned list\<close>

lemma ref_get_messages_result:
  assumes "seq_at hp (ref_history r) = Some xs"
  shows "ref_get_messages hp r =
           Some (hp @ [Dict \<lparr>role = ''system'', content = ref_system_prompt r\<rparr>,
                       Seq (length hp # xs), Seq xs],
                 Suc (length hp))"
  using assms
  by (simp add: ref_get_messages_def alloc_def seq_at_def nth_append list_update_append)

lemma ref_get_messages_new_list:
  assumes wf: "ref_wf hp r"
  shows "case ref_get_messages hp r of
           None \<Rightarrow> False
         | Some (hp', msgs) \<Rightarrow>
             seq_at hp msgs = None \<and> dict_at hp msgs = None \<and>
             msgs \<noteq> ref_history r \<and>
             ref_view hp' r = ref_view hp r \<and>
             ref_view (set_list hp' msgs ys) r = ref_view hp r \<and>
             map_option tl (seq_at hp' msgs) = seq_at hp (ref_history r) \<and>
             map_option hd (seq_view hp' msgs) =
               Some (Some \<lparr>role = ''system'', content = ref_system_prompt r\<rparr>) \<and>
             map_option tl (seq_view hp' msgs) = ref_view hp r"
proof -
  from wf obtain xs where xs: "seq_at hp (ref_history r) = Some xs"
    and ds: "list_all (\<lambda>a. dict_at hp a \<noteq> None) xs"
    by (auto simp: ref_wf_def split: option.splits)
  let ?sys = "\<lparr>role = ''system'', content = ref_system_prompt r\<rparr>"
  let ?new = "[Dict ?sys, Seq (length hp # xs), Seq xs]"
  let ?hp' = "hp @ ?new"
  let ?msgs = "Suc (length hp)"
  have res: "ref_get_messages hp r = Some (?hp', ?msgs)"
    using xs by (rule ref_get_messages_result)
  have d: "ref_history r < length hp" using xs by (rule seq_at_less)
  have fresh: "seq_at hp ?msgs = None" "dict_at hp ?msgs = None" "?msgs \<noteq> ref_history r"
    using d by (simp_all add: seq_at_def dict_at_def)
  have seq': "seq_at ?hp' (ref_history r) = Some xs"
    using d xs by (simp add: seq_at_append)
  have vals: "map (dict_at ?hp') xs = map (dict_at hp) xs"
    using ds by (rule map_dict_at_append)
  have view: "ref_view ?hp' r = ref_view hp r"
    by (simp add: ref_view_def seq_view_def seq' xs vals)
  have seq'': "seq_at (set_list ?hp' ?msgs ys) (ref_history r) = Some xs"
    unfolding set_list_def using fresh(3) seq' by (simp add: seq_at_update_other)
  have ds': "list_all (\<lambda>a. dict_at ?hp' a \<noteq> None) xs"
    using ds by (rule list_all_dict_at_append)
  have msgs_seq: "seq_at ?hp' ?msgs = Some (length hp # xs)"
    by (simp add: seq_at_def nth_append)
  have vals': "map (dict_at (set_list ?hp' ?msgs ys)) xs = map (dict_at ?hp') xs"
    unfolding set_list_def using ds' msgs_seq by (rule map_dict_at_update_seq)
  have view': "ref_view (set_list ?hp' ?msgs ys) r = ref_view hp r"
    by (simp add: ref_view_def seq_view_def seq'' xs vals' vals)
  have sysd: "dict_at ?hp' (length hp) = Some ?sys"
    by (simp add: dict_at_def nth_append)
  have snap: "seq_view ?hp' ?msgs = Some (Some ?sys # map (dict_at hp) xs)"
    by (simp add: seq_view_def msgs_seq sysd vals)
  show ?thesis
    unfolding res
    using fresh view view' msgs_seq xs snap
    by (simp add: ref_view_def seq_view_def)
qed


text \<open>
  C6, as the claim has it, fails: the list that \<^verbatim>\<open>get_messages\<close> returns holds the
  very dict objects of the history. After \<^verbatim>\<open>add_user("hi")\<close>, the caller's
  \<^verbatim>\<open>msgs[1]["content"] = "changed"\<close> on the returned list changes the message stored in
  the history.
\<close>

theorem snapshot_shares_messages_counterexample:
  "ref_init [] 8 None = ([Seq []], example_ref) \<and>
   ref_add_user [Seq []] example_ref ''hi'' = Some (example_heap, Inr ()) \<and>
   ref_get_messages example_heap example_ref = Some (example_heap_snapshot, 3) \<and>
   ref_view example_heap_snapshot example_ref =
     Some [Some \<lparr>role = ''user'', content = ''hi''\<rparr>] \<and>
   set_content example_heap_snapshot 3 1 ''changed'' =
     Some (example_heap_snapshot[1 := Dict \<lparr>role = ''user'', content = ''changed''\<rparr>]) \<and>
   ref_view (example_heap_snapshot[1 := Dict \<lparr>role = ''user'', content = ''changed''\<rparr>])
       example_ref =
     Some [Some \<lparr>role = ''user'', content = ''changed''\<rparr>] \<and>
   ref_view (example_heap_snapshot[1 := Dict \<lparr>role = ''user'', content = ''changed''\<rparr>])
       example_ref \<noteq>
     ref_view example_heap_snapshot example_ref"
  by (simp add: ref_init_def alloc_def example_ref_def example_heap_def
        example_heap_snapshot_def ref_add_user_def ref_append_def seq_at_def dict_at_def
        trim_loop.simps ref_get_messages_def set_content_def ref_view_def seq_view_def)

text \<open>
  C6, amended. On a heap that holds the state's deque and its messages,
  \<^verbatim>\<open>get_messages\<close> returns a list object that did not exist before and is not the
  deque: the call leaves the history as it was, and so does any in-place change of the
  returned list (\<^verbatim>\<open>append\<close>, \<^verbatim>\<open>pop\<close>, \<^verbatim>\<open>clear\<close>, item assignment). The list holds a
  new system message first and after it the very references of the history (the message
  objects are shared, not copied), so as values it is the system message followed by the
  history.
\<close>

theorem snapshot_is_new_list:
  "ref_wf hp r \<Longrightarrow>
   (case ref_get_messages hp r of
      None \<Rightarrow> False
    | Some (hp', msgs) \<Rightarrow>
        seq_at hp msgs = None \<and> dict_at hp msgs = None \<and>
        msgs \<noteq> ref_history r \<and>
        ref_view hp' r = ref_view hp r \<and>
        ref_view (set_list hp' msgs ys) r = ref_view hp r \<and>
        map_option tl (seq_at hp' msgs) = seq_at hp (ref_history r) \<and>
        map_option hd (seq_view hp' msgs) =
          Some (Some \<lparr>role = ''system'', content = ref_system_prompt r\<rparr>) \<and>
        map_option tl (seq_view hp' msgs) = ref_view hp r)"
  by (rule ref_get_messages_new_list)

theorem snapshot_is_new_list_witness:
  "ref_wf example_heap example_ref \<and>
   ref_get_messages example_heap example_ref = Some (example_heap_snapshot, 3) \<and>
   ref_view example_heap example_ref = Some [Some \<lparr>role = ''user'', content = ''hi''\<rparr>] \<and>
   ref_view (set_list example_heap_snapshot 3 []) example_ref = ref_view example_heap example_ref \<and>
   seq_at example_heap_snapshot 3 = Some [2, 1] \<and>
   seq_at example_heap (ref_history example_ref) = Some [1]"
proof -
  have wf: "ref_wf example_heap example_ref"
    by (simp add: ref_wf_def example_heap_def example_ref_def seq_at_def dict_at_def)
  have res: "ref_get_messages example_heap example_ref = Some (example_heap_snapshot, 3)"
    by (simp add: ref_get_messages_def alloc_def example_heap_def example_ref_def
          example_heap_snapshot_def seq_at_def)
  have v: "ref_view example_heap example_ref = Some [Some \<lparr>role = ''user'', content = ''hi''\<rparr>]"
    by (simp add: ref_view_def seq_view_def example_heap_def example_ref_def seq_at_def
          dict_at_def)
  have s3: "seq_at example_heap_snapshot 3 = Some [2, 1]"
    by (simp add: example_heap_snapshot_def seq_at_def)
  have s0: "seq_at example_heap (ref_history example_ref) = Some [1]"
    by (simp add: example_heap_def example_ref_def seq_at_def)
  from snapshot_is_new_list[OF wf, of "[]"] wf res v s3 s0 show ?thesis
    by simp
qed

subsection \<open>The state as a value and the state as an object\<close>

text \<open>
  The constructor establishes \<open>ref_wf\<close> and appending keeps it, and the methods on the
  object compute, on the values the references stand for, what the methods of the first
  section compute on lists of values. So long as no message object is changed in place,
  which nothing in the program does, the value model is the object model.
\<close>

lemma ref_init_wf: "ref_wf (fst (ref_init hp mt sp)) (snd (ref_init hp mt sp))"
  by (simp add: ref_init_def alloc_def ref_wf_def seq_at_def)

lemma ref_init_abstract:
  "ref_view (fst (ref_init hp mt sp)) (snd (ref_init hp mt sp)) = Some (map Some []) \<and>
   abstract_state (snd (ref_init hp mt sp)) [] = ConversationState_init mt sp"
  by (simp add: ref_init_def alloc_def ref_view_def seq_view_def seq_at_def abstract_state_def
        ConversationState_init_def)

lemma trim_loop_map:
  "trim_loop mt (map f xs) = (map f (fst (trim_loop mt xs)), snd (trim_loop mt xs))"
proof (induction mt xs rule: trim_loop.induct)
  case (1 mt h)
  show ?case
  proof (cases "int (length h) > mt * 2")
    case False
    then show ?thesis
      by (simp add: trim_loop.simps[of mt h] trim_loop.simps[of mt "map f h"])
  next
    case True
    show ?thesis
    proof (cases h)
      case Nil
      with True show ?thesis by (simp add: trim_loop.simps[of mt "[]"])
    next
      case (Cons m rest)
      from "1.IH"[OF True Cons] True Cons show ?thesis
        by (simp add: trim_loop.simps[of mt "m # rest"] trim_loop.simps[of mt "f m # map f rest"])
    qed
  qed
qed

lemma ref_append_abstract:
  assumes wf: "ref_wf hp r" and view: "ref_view hp r = Some (map Some h)"
  shows "case ref_append hp r m of
           None \<Rightarrow> False
         | Some (hp', out) \<Rightarrow>
             ref_wf hp' r \<and>
             ref_view hp' r =
               Some (map Some (history (fst (trim ((abstract_state r h)\<lparr>history := h @ [m]\<rparr>))))) \<and>
             out = snd (trim ((abstract_state r h)\<lparr>history := h @ [m]\<rparr>))"
proof -
  from wf obtain xs where xs: "seq_at hp (ref_history r) = Some xs"
    and ds: "list_all (\<lambda>a. dict_at hp a \<noteq> None) xs"
    by (auto simp: ref_wf_def split: option.splits)
  from view xs have vals: "map (dict_at hp) xs = map Some h"
    by (simp add: ref_view_def seq_view_def)
  let ?d = "ref_history r"
  let ?a = "length hp"
  let ?hp1 = "hp @ [Dict m]"
  let ?mt = "ref_max_turns r"
  obtain ys e where tl: "trim_loop ?mt (xs @ [?a]) = (ys, e)" by (cases "trim_loop ?mt (xs @ [?a])")
  let ?hp' = "?hp1[?d := Seq ys]"
  have d: "?d < length hp" using xs by (rule seq_at_less)
  have res: "ref_append hp r m = Some (?hp', case e of None \<Rightarrow> Inr () | Some x \<Rightarrow> Inl x)"
    using xs tl by (cases e) (simp_all add: ref_append_def alloc_def)
  have seq1: "seq_at ?hp1 ?d = Some xs" using d xs by (simp add: seq_at_append)
  have ds1: "list_all (\<lambda>a. dict_at ?hp1 a \<noteq> None) (xs @ [?a])"
    using list_all_dict_at_append[OF ds, of "[Dict m]"] by (simp add: dict_at_def)
  have vals1: "map (dict_at ?hp1) (xs @ [?a]) = map Some (h @ [m])"
    using map_dict_at_append[OF ds, of "[Dict m]"] vals by (simp add: dict_at_def)
  obtain k where k: "ys = drop k (xs @ [?a])"
    using trim_loop_suffix[of ?mt "xs @ [?a]"] tl by auto
  have dsy: "list_all (\<lambda>a. dict_at ?hp1 a \<noteq> None) ys"
    using ds1 unfolding k by (auto simp: list_all_iff dest: in_set_dropD)
  have valsy: "map (dict_at ?hp') ys = map (dict_at ?hp1) ys"
    using dsy seq1 by (rule map_dict_at_update_seq)
  have seq': "seq_at ?hp' ?d = Some ys"
    using d by (simp add: seq_at_update_same)
  have "trim_loop ?mt (map (dict_at ?hp1) (xs @ [?a])) = (map (dict_at ?hp1) ys, e)"
    using trim_loop_map[of ?mt "dict_at ?hp1" "xs @ [?a]"] tl by simp
  moreover have "trim_loop ?mt (map Some (h @ [m])) =
      (map Some (fst (trim_loop ?mt (h @ [m]))), snd (trim_loop ?mt (h @ [m])))"
    by (rule trim_loop_map)
  ultimately have abs: "map (dict_at ?hp1) ys = map Some (fst (trim_loop ?mt (h @ [m])))"
    and e: "e = snd (trim_loop ?mt (h @ [m]))"
    unfolding vals1 by simp_all
  have wf': "ref_wf ?hp' r"
    unfolding ref_wf_def seq' using dsy valsy
    by (simp add: list_all_iff)
  have view': "ref_view ?hp' r = Some (map Some (fst (trim_loop ?mt (h @ [m]))))"
    by (simp add: ref_view_def seq_view_def seq' valsy abs)
  show ?thesis
    unfolding res using wf' view' e
    by (simp add: trim_def abstract_state_def split: prod.splits option.splits)
qed

lemma ref_add_user_abstract:
  assumes "ref_wf hp r" and "ref_view hp r = Some (map Some h)"
  shows "case ref_add_user hp r text of
           None \<Rightarrow> False
         | Some (hp', out) \<Rightarrow>
             ref_wf hp' r \<and>
             ref_view hp' r = Some (map Some (history (fst (add_user (abstract_state r h) text)))) \<and>
             out = snd (add_user (abstract_state r h) text)"
proof -
  have eq: "add_user (abstract_state r h) text =
      trim ((abstract_state r h)\<lparr>history := h @ [\<lparr>role = ''user'', content = text\<rparr>]\<rparr>)"
    by (simp add: add_user_def abstract_state_def)
  show ?thesis
    unfolding ref_add_user_def eq using assms by (rule ref_append_abstract)
qed

lemma ref_add_assistant_abstract:
  assumes "ref_wf hp r" and "ref_view hp r = Some (map Some h)"
  shows "case ref_add_assistant hp r text of
           None \<Rightarrow> False
         | Some (hp', out) \<Rightarrow>
             ref_wf hp' r \<and>
             ref_view hp' r =
               Some (map Some (history (fst (add_assistant (abstract_state r h) text)))) \<and>
             out = snd (add_assistant (abstract_state r h) text)"
proof -
  have eq: "add_assistant (abstract_state r h) text =
      trim ((abstract_state r h)\<lparr>history := h @ [\<lparr>role = ''assistant'', content = text\<rparr>]\<rparr>)"
    by (simp add: add_assistant_def abstract_state_def)
  show ?thesis
    unfolding ref_add_assistant_def eq using assms by (rule ref_append_abstract)
qed

lemma ref_get_messages_abstract:
  assumes wf: "ref_wf hp r" and view: "ref_view hp r = Some (map Some h)"
  shows "case ref_get_messages hp r of
           None \<Rightarrow> False
         | Some (hp', msgs) \<Rightarrow>
             ref_wf hp' r \<and> ref_view hp' r = Some (map Some h) \<and>
             seq_view hp' msgs = Some (map Some (get_messages (abstract_state r h)))"
proof -
  from wf obtain xs where xs: "seq_at hp (ref_history r) = Some xs"
    and ds: "list_all (\<lambda>a. dict_at hp a \<noteq> None) xs"
    by (auto simp: ref_wf_def split: option.splits)
  from view xs have vals: "map (dict_at hp) xs = map Some h"
    by (simp add: ref_view_def seq_view_def)
  let ?sys = "\<lparr>role = ''system'', content = ref_system_prompt r\<rparr>"
  let ?hp' = "hp @ [Dict ?sys, Seq (length hp # xs), Seq xs]"
  have res: "ref_get_messages hp r = Some (?hp', Suc (length hp))"
    using xs by (rule ref_get_messages_result)
  have d: "ref_history r < length hp" using xs by (rule seq_at_less)
  have seq': "seq_at ?hp' (ref_history r) = Some xs" using d xs by (simp add: seq_at_append)
  have ds': "list_all (\<lambda>a. dict_at ?hp' a \<noteq> None) xs"
    using ds by (rule list_all_dict_at_append)
  have vals': "map (dict_at ?hp') xs = map Some h"
    using map_dict_at_append[OF ds] vals by simp
  have "seq_at ?hp' (Suc (length hp)) = Some (length hp # xs)"
    by (simp add: seq_at_def nth_append)
  moreover have "dict_at ?hp' (length hp) = Some ?sys"
    by (simp add: dict_at_def nth_append)
  ultimately have snap: "seq_view ?hp' (Suc (length hp)) = Some (Some ?sys # map Some h)"
    by (simp add: seq_view_def vals')
  show ?thesis
    unfolding res using seq' ds' vals' snap
    by (simp add: ref_wf_def ref_view_def seq_view_def get_messages_def abstract_state_def)
qed

end
